theory Spec2Isabelle
  imports Main
begin

section \<open>Strings\<close>

text \<open>
  A JavaScript string is modelled as a \<^typ>\<open>string\<close>: one \<^typ>\<open>char\<close> per UTF-16 code
  unit, for code units below 256 (the characters U+0000 to U+00FF). Every pattern the
  program looks for is ASCII.
\<close>

text \<open>\<^verbatim>\<open>target.includes('@')\<close>\<close>

definition includes_js :: "string \<Rightarrow> char \<Rightarrow> bool" where
  "includes_js s c = (c \<in> set s)"

text \<open>\<^verbatim>\<open>target.startsWith('http://')\<close>\<close>

definition startsWith :: "string \<Rightarrow> string \<Rightarrow> bool" where
  "startsWith s p = (take (length p) s = p)"

section \<open>The regular expression of the target classifier\<close>

text \<open>
  The pattern \<^verbatim>\<open>/^\d+\.\d+\.\d+\.\d+$/\<close> is a sequence of atoms, each a character class
  with a quantifier (exactly one, or one-or-more). The anchors \<^verbatim>\<open>^\<close> and \<^verbatim>\<open>$\<close> (no
  multiline flag) make \<^verbatim>\<open>test\<close> a match of the whole string. \<^verbatim>\<open>\d\<close> is the class of the
  ten ASCII digits.
\<close>

datatype quantifier = One | OneOrMore

type_synonym atom = "(char \<Rightarrow> bool) \<times> quantifier"

definition is_digit :: "char \<Rightarrow> bool" where
  "is_digit c = (c \<in> set ''0123456789'')"

definition is_dot :: "char \<Rightarrow> bool" where
  "is_dot c = (c = CHR ''.'')"

text \<open>
  Matching with backtracking: a one-or-more atom consumes a character of its class and then
  either goes on with itself or hands over to the rest of the pattern.
\<close>

fun regex_test :: "atom list \<Rightarrow> string \<Rightarrow> bool" where
  "regex_test [] s = (s = [])"
| "regex_test ((cls, One) # as) [] = False"
| "regex_test ((cls, One) # as) (c # cs) = (cls c \<and> regex_test as cs)"
| "regex_test ((cls, OneOrMore) # as) [] = False"
| "regex_test ((cls, OneOrMore) # as) (c # cs) =
     (cls c \<and> (regex_test ((cls, OneOrMore) # as) cs \<or> regex_test as cs))"

definition ipv4_regex :: "atom list" where
  "ipv4_regex =
     [(is_digit, OneOrMore), (is_dot, One),
      (is_digit, OneOrMore), (is_dot, One),
      (is_digit, OneOrMore), (is_dot, One),
      (is_digit, OneOrMore)]"

section \<open>Target classifier\<close>

text \<open>
  \<^verbatim>\<open>
  function detectTargetType(target: string): Record<string, string> {
    if (target.includes('@')) return { email: target };
    if (/^\d+\.\d+\.\d+\.\d+$/.test(target)) return { ip: target };
    if (target.startsWith('http://') || target.startsWith('https://')) return { url: target };
    return { domain: target };
  }
  \<close>
  The returned object is the list of its entries, in the order \<^verbatim>\<open>Object.entries\<close> gives.
\<close>

type_synonym params = "(string \<times> string) list"

definition detectTargetType :: "string \<Rightarrow> params" where
  "detectTargetType target =
     (if includes_js target (CHR ''@'') then [(''email'', target)]
      else if regex_test ipv4_regex target then [(''ip'', target)]
      else if startsWith target ''http://'' \<or> startsWith target ''https://''
        then [(''url'', target)]
      else [(''domain'', target)])"

text \<open>
  The words of the specification: four dot-separated groups of one-or-more ASCII digits,
  making up the whole string.
\<close>

definition digit_group :: "string \<Rightarrow> bool" where
  "digit_group g = (g \<noteq> [] \<and> (\<forall>c \<in> set g. is_digit c))"

definition four_digit_groups :: "string \<Rightarrow> bool" where
  "four_digit_groups s =
     (\<exists>a b c d. s = a @ ''.'' @ b @ ''.'' @ c @ ''.'' @ d
        \<and> digit_group a \<and> digit_group b \<and> digit_group c \<and> digit_group d)"

section \<open>Form-urlencoded serialisation of a query\<close>

text \<open>
  \<^verbatim>\<open>url.searchParams.set\<close> and \<^verbatim>\<open>url.toString()\<close> belong to the platform's URL class.
  Its serialiser is the application/x-www-form-urlencoded serialiser of the URL standard:
  each name and value is encoded as UTF-8; a space becomes \<^verbatim>\<open>+\<close>; ASCII letters and digits
  and \<^verbatim>\<open>* - . _\<close> stay; every other byte becomes \<^verbatim>\<open>%\<close> and two upper-case hexadecimal
  digits; name and value are joined by \<^verbatim>\<open>=\<close>, the pairs by \<^verbatim>\<open>&\<close>.
\<close>

definition utf8_encode :: "char \<Rightarrow> string" where
  "utf8_encode c =
     (if (of_char c :: nat) < 128 then [c]
      else [char_of (192 + (of_char c :: nat) div 64),
            char_of (128 + (of_char c :: nat) mod 64)])"

definition is_alnum :: "char \<Rightarrow> bool" where
  "is_alnum c =
     ((48 \<le> (of_char c :: nat) \<and> (of_char c :: nat) \<le> 57)
      \<or> (65 \<le> (of_char c :: nat) \<and> (of_char c :: nat) \<le> 90)
      \<or> (97 \<le> (of_char c :: nat) \<and> (of_char c :: nat) \<le> 122))"

definition urlencoded_safe :: "char \<Rightarrow> bool" where
  "urlencoded_safe c =
     (is_alnum c \<or> c = CHR ''*'' \<or> c = CHR ''-'' \<or> c = CHR ''.'' \<or> c = CHR ''_'')"

definition hex_digit :: "nat \<Rightarrow> char" where
  "hex_digit d = ''0123456789ABCDEF'' ! d"

definition percent_encode_byte :: "char \<Rightarrow> string" where
  "percent_encode_byte b =
     [CHR ''%'', hex_digit ((of_char b :: nat) div 16), hex_digit ((of_char b :: nat) mod 16)]"

definition urlencode_byte :: "char \<Rightarrow> string" where
  "urlencode_byte b =
     (if b = CHR '' '' then ''+''
      else if urlencoded_safe b then [b]
      else percent_encode_byte b)"

definition urlencode :: "string \<Rightarrow> string" where
  "urlencode s = concat (map urlencode_byte (concat (map utf8_encode s)))"

definition query_component :: "string \<times> string \<Rightarrow> string" where
  "query_component p = urlencode (fst p) @ ''='' @ urlencode (snd p)"

fun join_amp :: "string list \<Rightarrow> string" where
  "join_amp [] = []"
| "join_amp [x] = x"
| "join_amp (x # y # r) = x @ ''&'' @ join_amp (y # r)"

definition urlencoded_serialize :: "params \<Rightarrow> string" where
  "urlencoded_serialize l = join_amp (map query_component l)"

section \<open>The URL object\<close>

text \<open>
  A URL object, as far as the program touches it: the serialisation of scheme, authority and
  path (\<open>url_prefix\<close>), the query string, the list of name-value pairs behind
  \<^verbatim>\<open>searchParams\<close>, and the fragment. The parser behind \<^verbatim>\<open>new URL(s)\<close> is a parameter
  of the model, \<open>URL_new\<close>: it gives \<open>None\<close> where the constructor throws a TypeError.
\<close>

record url =
  url_prefix :: string
  url_query :: "string option"
  url_searchParams :: params
  url_fragment :: "string option"

text \<open>
  \<^verbatim>\<open>searchParams.set(name, value)\<close>: if the list has pairs with this name, the first one
  gets the value and the others are removed; otherwise the pair is appended. Then the query of
  the URL becomes the serialisation of the list (null when that is empty).
\<close>

fun replace_first :: "string \<Rightarrow> string \<Rightarrow> params \<Rightarrow> params" where
  "replace_first k v [] = []"
| "replace_first k v (p # r) =
     (if fst p = k then (k, v) # filter (\<lambda>q. fst q \<noteq> k) r else p # replace_first k v r)"

definition list_set :: "string \<Rightarrow> string \<Rightarrow> params \<Rightarrow> params" where
  "list_set k v l = (if k \<in> fst ` set l then replace_first k v l else l @ [(k, v)])"

definition searchParams_set :: "string \<Rightarrow> string \<Rightarrow> url \<Rightarrow> url" where
  "searchParams_set k v u =
     (let l = list_set k v (url_searchParams u);
          q = urlencoded_serialize l
      in u\<lparr>url_searchParams := l, url_query := (if q = [] then None else Some q)\<rparr>)"

text \<open>\<^verbatim>\<open>url.toString()\<close>\<close>

definition href :: "url \<Rightarrow> string" where
  "href u =
     url_prefix u
     @ (case url_query u of None \<Rightarrow> [] | Some q \<Rightarrow> ''?'' @ q)
     @ (case url_fragment u of None \<Rightarrow> [] | Some f \<Rightarrow> ''#'' @ f)"

text \<open>
  What the parser returns on a string that is already a serialised URL with neither query nor
  fragment, such as \<^verbatim>\<open>https://shield.vainplex.dev/api/check-url\<close>: the string itself as
  prefix. It stands for \<open>URL_new\<close> in the closed examples.
\<close>

definition parsed_verbatim :: "string \<Rightarrow> url option" where
  "parsed_verbatim s =
     Some \<lparr>url_prefix = s, url_query = None, url_searchParams = [], url_fragment = None\<rparr>"

text \<open>
  What the parser returns on \<^verbatim>\<open>https://example.com?x=1/api/check-url\<close>, a base URL
  with a query followed by \<^verbatim>\<open>/api/check-url\<close>: the path is \<^verbatim>\<open>/\<close> and everything
  after the question mark is the query, one pair of name \<^verbatim>\<open>x\<close>.
\<close>

definition parsed_with_query :: "string \<Rightarrow> url option" where
  "parsed_with_query s =
     (if s = ''https://example.com?x=1/api/check-url''
      then Some \<lparr>url_prefix = ''https://example.com/'',
                 url_query = Some ''x=1/api/check-url'',
                 url_searchParams = [(''x'', ''1/api/check-url'')],
                 url_fragment = None\<rparr>
      else None)"

section \<open>Errors, requests and responses\<close>

text \<open>
  What the program can fail with: the TypeError of \<^verbatim>\<open>new URL\<close> on an invalid URL (and of
  a method call on \<^verbatim>\<open>undefined\<close>); the SyntaxError of \<^verbatim>\<open>response.json()\<close> on a body
  that is not JSON; the \<^verbatim>\<open>Error\<close> with a message that the API caller throws; a failure of
  \<^verbatim>\<open>fetch\<close> itself; the failure of the payment wrapper to produce an authorization; a
  failure while the payment client is set up.
\<close>

datatype error =
    TypeError
  | SyntaxError
  | Error string
  | FetchFailed
  | PaymentError
  | ClientSetupFailed

text \<open>
  A request is a GET of a URL; the payment wrapper may attach a payment authorization to it.
\<close>

record request =
  req_url :: string
  req_payment :: "string option"

text \<open>
  A response is its status and its body, already read: \<^verbatim>\<open>response.text()\<close> gives the
  body, \<^verbatim>\<open>response.json()\<close> parses it.
\<close>

record response =
  status :: nat
  body :: string

text \<open>\<^verbatim>\<open>response.ok\<close>: the status is in the range 200 to 299.\<close>

definition ok :: "response \<Rightarrow> bool" where
  "ok r = (200 \<le> status r \<and> status r \<le> 299)"

text \<open>
  A transport takes a request and the state of the world and gives back a response or a
  failure, and the new state of the world.
\<close>

type_synonym 'w transport = "request \<Rightarrow> 'w \<Rightarrow> (error + response) \<times> 'w"

text \<open>\<^verbatim>\<open>s.substring(a, b)\<close>, for non-negative integer arguments.\<close>

definition substring :: "string \<Rightarrow> nat \<Rightarrow> nat \<Rightarrow> string" where
  "substring s a b = take (max a b - min a b) (drop (min a b) s)"

text \<open>The decimal digits of a non-negative integer, as a template literal prints it.\<close>

function string_of_nat :: "nat \<Rightarrow> string" where
  "string_of_nat n =
     (if n < 10 then [char_of (48 + n)]
      else string_of_nat (n div 10) @ [char_of (48 + n mod 10)])"
  by pat_completeness auto
termination
  by (relation "measure id") auto

declare string_of_nat.simps [simp del]

section \<open>Platform and module state\<close>

text \<open>
  What the program takes from its platform and libraries: the URL parser, the JSON parser
  behind \<^verbatim>\<open>response.json()\<close> (\<open>None\<close> for a SyntaxError), \<^verbatim>\<open>JSON.stringify\<close> with its
  indentation argument, the global \<^verbatim>\<open>fetch\<close>, the wrapper \<^verbatim>\<open>wrapFetchWithPayment\<close>, and
  the construction of the payment client from the private key (account, wallet client,
  signer, registered scheme), which may throw.
\<close>

record ('w, 'j, 'c) platform =
  URL_new :: "string \<Rightarrow> url option"
  JSON_parse :: "string \<Rightarrow> 'j option"
  JSON_stringify :: "'j \<Rightarrow> nat \<Rightarrow> string"
  fetch :: "'w transport"
  wrapFetchWithPayment :: "'w transport \<Rightarrow> 'c \<Rightarrow> 'w transport"
  createClient :: "string \<Rightarrow> 'c option"

text \<open>
  \<^verbatim>\<open>
  const {
    SHIELDAPI_URL = 'https://shield.vainplex.dev',
    SHIELDAPI_WALLET_PRIVATE_KEY,
  } = process.env;
  const demoMode = !SHIELDAPI_WALLET_PRIVATE_KEY;
  let paymentFetch: typeof fetch = fetch;
  \<close>
  An environment variable is absent (\<open>None\<close>) or a string. The default of the destructuring
  applies to an absent variable only. \<^verbatim>\<open>!x\<close> is true for an absent variable and for the
  empty string.
\<close>

record 'w module_state =
  SHIELDAPI_URL :: string
  SHIELDAPI_WALLET_PRIVATE_KEY :: "string option"
  paymentFetch :: "'w transport"

definition falsy :: "string option \<Rightarrow> bool" where
  "falsy x = (case x of None \<Rightarrow> True | Some s \<Rightarrow> s = [])"

definition demoMode :: "'w module_state \<Rightarrow> bool" where
  "demoMode m = falsy (SHIELDAPI_WALLET_PRIVATE_KEY m)"

definition module_init ::
  "('w, 'j, 'c) platform \<Rightarrow> (string \<rightharpoonup> string) \<Rightarrow> 'w module_state" where
  "module_init P env =
     \<lparr>SHIELDAPI_URL =
        (case env ''SHIELDAPI_URL'' of None \<Rightarrow> ''https://shield.vainplex.dev'' | Some s \<Rightarrow> s),
      SHIELDAPI_WALLET_PRIVATE_KEY = env ''SHIELDAPI_WALLET_PRIVATE_KEY'',
      paymentFetch = fetch P\<rparr>"

text \<open>
  \<^verbatim>\<open>
  async function initPaymentFetch(): Promise<void> {
    if (demoMode) return;
    ...
    const account = privateKeyToAccount(SHIELDAPI_WALLET_PRIVATE_KEY as `0x${string}`);
    ...
    paymentFetch = wrapFetchWithPayment(fetch, client);
  }
  \<close>
\<close>

definition initPaymentFetch ::
  "('w, 'j, 'c) platform \<Rightarrow> 'w module_state \<Rightarrow> error + 'w module_state" where
  "initPaymentFetch P m =
     (if demoMode m then Inr m
      else
        (case SHIELDAPI_WALLET_PRIVATE_KEY m of
           None \<Rightarrow> Inl ClientSetupFailed
         | Some key \<Rightarrow>
             (case createClient P key of
                None \<Rightarrow> Inl ClientSetupFailed
              | Some client \<Rightarrow>
                  Inr (m\<lparr>paymentFetch := wrapFetchWithPayment P (fetch P) client\<rparr>))))"

text \<open>
  \<^verbatim>\<open>main\<close> awaits \<^verbatim>\<open>initPaymentFetch\<close> before it connects the server; a failure there is
  fatal (\<^verbatim>\<open>process.exit(1)\<close>), so tools are only ever called in a state that \<open>main\<close> returns.
\<close>

definition main ::
  "('w, 'j, 'c) platform \<Rightarrow> (string \<rightharpoonup> string) \<Rightarrow> error + 'w module_state" where
  "main P env = initPaymentFetch P (module_init P env)"

section \<open>API caller\<close>

text \<open>
  \<^verbatim>\<open>
  const url = new URL(`${SHIELDAPI_URL}/api/${endpoint}`);
  for (const [key, value] of Object.entries(params)) {
    url.searchParams.set(key, value);
  }
  if (demoMode) {
    url.searchParams.set('demo', 'true');
  }
  \<close>
  followed by \<^verbatim>\<open>url.toString()\<close>. The test suite names these lines \<^verbatim>\<open>buildUrl\<close>.
\<close>

definition buildUrl ::
  "(string \<Rightarrow> url option) \<Rightarrow> string \<Rightarrow> string \<Rightarrow> params \<Rightarrow> bool \<Rightarrow> error + string" where
  "buildUrl parse base endpoint params demo =
     (case parse (base @ ''/api/'' @ endpoint) of
        None \<Rightarrow> Inl TypeError
      | Some url \<Rightarrow>
          (let url1 = fold (\<lambda>(key, value). searchParams_set key value) params url;
               url2 = (if demo then searchParams_set ''demo'' ''true'' url1 else url1)
           in Inr (href url2)))"

text \<open>
  \<^verbatim>\<open>
  const response = await paymentFetch(url.toString());
  if (!response.ok) {
    const body = await response.text();
    throw new Error(`ShieldAPI ${endpoint} failed (${response.status}): ${body.substring(0, 200)}`);
  }
  return response.json();
  \<close>
\<close>

definition failure_message :: "string \<Rightarrow> response \<Rightarrow> string" where
  "failure_message endpoint r =
     ''ShieldAPI '' @ endpoint @ '' failed ('' @ string_of_nat (status r) @ ''): ''
       @ substring (body r) 0 200"

definition response_json :: "('w, 'j, 'c) platform \<Rightarrow> response \<Rightarrow> error + 'j" where
  "response_json P r = (case JSON_parse P (body r) of None \<Rightarrow> Inl SyntaxError | Some v \<Rightarrow> Inr v)"

definition callShieldApi ::
  "('w, 'j, 'c) platform \<Rightarrow> 'w module_state \<Rightarrow> string \<Rightarrow> params \<Rightarrow> 'w \<Rightarrow> (error + 'j) \<times> 'w" where
  "callShieldApi P m endpoint params w =
     (case buildUrl (URL_new P) (SHIELDAPI_URL m) endpoint params (demoMode m) of
        Inl e \<Rightarrow> (Inl e, w)
      | Inr u \<Rightarrow>
          (case paymentFetch m \<lparr>req_url = u, req_payment = None\<rparr> w of
             (Inl e, w') \<Rightarrow> (Inl e, w')
           | (Inr r, w') \<Rightarrow>
               if \<not> ok r then (Inl (Error (failure_message endpoint r)), w')
               else (response_json P r, w')))"

section \<open>Result formatter\<close>

text \<open>
  \<^verbatim>\<open>
  function formatResult(data: unknown): { content: Array<{ type: 'text'; text: string }> } {
    return {
      content: [{ type: 'text' as const, text: JSON.stringify(data, null, 2) }],
    };
  }
  \<close>
\<close>

record content_block =
  block_type :: string
  block_text :: string

record reply =
  content :: "content_block list"

definition formatResult :: "('w, 'j, 'c) platform \<Rightarrow> 'j \<Rightarrow> reply" where
  "formatResult P data = \<lparr>content = [\<lparr>block_type = ''text'', block_text = JSON_stringify P data 2\<rparr>]\<rparr>"

section \<open>Tools\<close>

text \<open>
  A registered tool: its name, its description, the parameter names of its schema (each a
  required string), and its handler. A handler gets the argument object as the list of its
  entries. The descriptions of the parameters are left out of the registrations.
\<close>

record 'w tool =
  tool_name :: string
  tool_description :: string
  tool_schema :: "string list"
  tool_handler :: "params \<Rightarrow> 'w \<Rightarrow> (error + reply) \<times> 'w"

text \<open>
  \<^verbatim>\<open>async (...) => formatResult(await callShieldApi(...))\<close>: a failure of the call
  propagates, a result is formatted.
\<close>

definition respond ::
  "('w, 'j, 'c) platform \<Rightarrow> (error + 'j) \<times> 'w \<Rightarrow> (error + reply) \<times> 'w" where
  "respond P r =
     (case r of (Inl e, w) \<Rightarrow> (Inl e, w) | (Inr data, w) \<Rightarrow> (Inr (formatResult P data), w))"

text \<open>
  The destructuring \<^verbatim>\<open>({ url })\<close> reads one property of the argument object. An absent
  property is \<^verbatim>\<open>undefined\<close>, which \<^verbatim>\<open>searchParams.set\<close> turns into the string
  \<^verbatim>\<open>undefined\<close>.
\<close>

definition property :: "params \<Rightarrow> string \<Rightarrow> string" where
  "property args k = (case map_of args k of None \<Rightarrow> ''undefined'' | Some v \<Rightarrow> v)"

definition ordinary_tool ::
  "('w, 'j, 'c) platform \<Rightarrow> 'w module_state \<Rightarrow> string \<Rightarrow> string \<Rightarrow> string \<Rightarrow> string \<Rightarrow> 'w tool" where
  "ordinary_tool P m name descr key endpoint =
     \<lparr>tool_name = name, tool_description = descr, tool_schema = [key],
      tool_handler = (\<lambda>args w.
        respond P (callShieldApi P m endpoint [(key, property args key)] w))\<rparr>"

text \<open>
  \<^verbatim>\<open>
  server.tool(
    'full_scan',
    'Run all security checks on a target (URL, domain, IP, or email). Most comprehensive scan.',
    { target: z.string().describe(...) },
    async ({ target }) => formatResult(await callShieldApi('full-scan', detectTargetType(target)))
  );
  \<close>
  With \<^verbatim>\<open>target\<close> undefined, \<^verbatim>\<open>target.includes\<close> throws a TypeError.
\<close>

definition full_scan_tool :: "('w, 'j, 'c) platform \<Rightarrow> 'w module_state \<Rightarrow> 'w tool" where
  "full_scan_tool P m =
     \<lparr>tool_name = ''full_scan'',
      tool_description =
        ''Run all security checks on a target (URL, domain, IP, or email). Most comprehensive scan.'',
      tool_schema = [''target''],
      tool_handler = (\<lambda>args w.
        (case map_of args ''target'' of
           None \<Rightarrow> (Inl TypeError, w)
         | Some target \<Rightarrow>
             respond P (callShieldApi P m ''full-scan'' (detectTargetType target) w)))\<rparr>"

text \<open>The seven \<^verbatim>\<open>server.tool\<close> registrations of \<^verbatim>\<open>src/index.ts\<close>, in their order.\<close>

definition registered_tools :: "('w, 'j, 'c) platform \<Rightarrow> 'w module_state \<Rightarrow> 'w tool list" where
  "registered_tools P m =
     [ordinary_tool P m ''check_url''
        ''Check a URL for malware, phishing, and other threats. Uses URLhaus + heuristic analysis.''
        ''url'' ''check-url'',
      ordinary_tool P m ''check_password''
        ''Check if a password hash (SHA-1) has been exposed in known data breaches via HIBP.''
        ''hash'' ''check-password'',
      ordinary_tool P m ''check_password_range''
        ''Look up a SHA-1 hash prefix in the HIBP k-Anonymity database.''
        ''prefix'' ''check-password-range'',
      ordinary_tool P m ''check_domain''
        ''Check domain reputation: DNS records, blacklists (Spamhaus, SpamCop, SORBS), SPF/DMARC, SSL.''
        ''domain'' ''check-domain'',
      ordinary_tool P m ''check_ip''
        ''Check IP reputation: blacklists, Tor exit node detection, reverse DNS.''
        ''ip'' ''check-ip'',
      ordinary_tool P m ''check_email''
        ''Check if an email address has been exposed in known data breaches via HIBP.''
        ''email'' ''check-email'',
      full_scan_tool P m]"

text \<open>
  The later revision of the file registers the six ordinary tools from a table, and passes
  the whole argument object on:
  \<^verbatim>\<open>
  for (const [name, def] of Object.entries(TOOLS)) {
    server.tool(name, def.description, { [def.param]: z.string().describe(def.paramDesc) },
      async (params) => formatResult(await callShieldApi(def.endpoint, params as Record<string, string>))
    );
  }
  \<close>
\<close>

record ToolDef =
  def_description :: string
  def_param :: string
  def_paramDesc :: string
  def_endpoint :: string

definition TOOLS :: "(string \<times> ToolDef) list" where
  "TOOLS =
     [(''check_url'',
       \<lparr>def_description =
          ''Check a URL for malware, phishing, and other threats. Uses URLhaus + heuristic analysis.'',
        def_param = ''url'',
        def_paramDesc = ''The URL to check (e.g. https://example.com)'',
        def_endpoint = ''check-url''\<rparr>),
      (''check_password'',
       \<lparr>def_description =
          ''Check if a password hash (SHA-1) has been exposed in known data breaches via HIBP.'',
        def_param = ''hash'',
        def_paramDesc = ''SHA-1 hash of the password (40 hex chars)'',
        def_endpoint = ''check-password''\<rparr>),
      (''check_password_range'',
       \<lparr>def_description = ''Look up a SHA-1 hash prefix in the HIBP k-Anonymity database.'',
        def_param = ''prefix'',
        def_paramDesc = ''First 5 characters of the SHA-1 password hash'',
        def_endpoint = ''check-password-range''\<rparr>),
      (''check_domain'',
       \<lparr>def_description =
          ''Check domain reputation: DNS records, blacklists (Spamhaus, SpamCop, SORBS), SPF/DMARC, SSL.'',
        def_param = ''domain'',
        def_paramDesc = ''Domain name to check (e.g. example.com)'',
        def_endpoint = ''check-domain''\<rparr>),
      (''check_ip'',
       \<lparr>def_description = ''Check IP reputation: blacklists, Tor exit node detection, reverse DNS.'',
        def_param = ''ip'',
        def_paramDesc = ''IPv4 address to check (e.g. 8.8.8.8)'',
        def_endpoint = ''check-ip''\<rparr>),
      (''check_email'',
       \<lparr>def_description =
          ''Check if an email address has been exposed in known data breaches via HIBP.'',
        def_param = ''email'',
        def_paramDesc = ''Email address to check'',
        def_endpoint = ''check-email''\<rparr>)]"

definition table_tool ::
  "('w, 'j, 'c) platform \<Rightarrow> 'w module_state \<Rightarrow> string \<times> ToolDef \<Rightarrow> 'w tool" where
  "table_tool P m entry =
     \<lparr>tool_name = fst entry, tool_description = def_description (snd entry),
      tool_schema = [def_param (snd entry)],
      tool_handler = (\<lambda>params w.
        respond P (callShieldApi P m (def_endpoint (snd entry)) params w))\<rparr>"

definition registered_tools_from_TOOLS ::
  "('w, 'j, 'c) platform \<Rightarrow> 'w module_state \<Rightarrow> 'w tool list" where
  "registered_tools_from_TOOLS P m = map (table_tool P m) TOOLS @ [full_scan_tool P m]"

definition find_tool :: "'w tool list \<Rightarrow> string \<Rightarrow> 'w tool option" where
  "find_tool tools name = find (\<lambda>t. tool_name t = name) tools"

text \<open>
  The tool catalog as the specification tabulates it: name, parameter, endpoint.
\<close>

definition catalog :: "(string \<times> string \<times> string) list" where
  "catalog =
     [(''check_url'', ''url'', ''check-url''),
      (''check_password'', ''hash'', ''check-password''),
      (''check_password_range'', ''prefix'', ''check-password-range''),
      (''check_domain'', ''domain'', ''check-domain''),
      (''check_ip'', ''ip'', ''check-ip''),
      (''check_email'', ''email'', ''check-email''),
      (''full_scan'', ''target'', ''full-scan'')]"

section \<open>Observing the transport\<close>

text \<open>
  The remote API answers a request depending on the requests it has received before. The
  world of \<open>network_fetch\<close> is the list of the requests that have reached the remote API.
\<close>

definition network_fetch ::
  "(request list \<Rightarrow> request \<Rightarrow> error + response) \<Rightarrow> request list transport" where
  "network_fetch remote req log = (remote log req, log @ [req])"

text \<open>A transport that also records each request it is called with.\<close>

definition recorded :: "'w transport \<Rightarrow> ('w \<times> request list) transport" where
  "recorded t req s = (case t req (fst s) of (r, w') \<Rightarrow> (r, (w', snd s @ [req])))"

text \<open>
  A request URL carries the demo marker: its query is the serialisation of a list of pairs
  that has the pair of \<^verbatim>\<open>demo\<close> and \<^verbatim>\<open>true\<close>.
\<close>

definition carries_demo_marker :: "string \<Rightarrow> bool" where
  "carries_demo_marker s =
     (\<exists>u. s = href u \<and> url_query u = Some (urlencoded_serialize (url_searchParams u))
        \<and> (''demo'', ''true'') \<in> set (url_searchParams u))"

section \<open>Words of the specification about built URLs\<close>

text \<open>
  The query of a URL object agrees with the list behind \<^verbatim>\<open>searchParams\<close>: it is absent
  for an empty list and the serialisation of the list otherwise.
\<close>

definition synced :: "url \<Rightarrow> bool" where
  "synced u = (url_query u =
     (if url_searchParams u = [] then None else Some (urlencoded_serialize (url_searchParams u))))"

text \<open>The query part of a built URL: nothing for no pairs, else \<^verbatim>\<open>?\<close> and the pairs.\<close>

definition query_suffix :: "params \<Rightarrow> string" where
  "query_suffix l = (if l = [] then [] else ''?'' @ urlencoded_serialize l)"

definition demo_pair :: "bool \<Rightarrow> params" where
  "demo_pair demo = (if demo then [(''demo'', ''true'')] else [])"

text \<open>The URL parser returns its input unchanged, with no query and no fragment.\<close>

definition parses_verbatim :: "(string \<Rightarrow> url option) \<Rightarrow> string \<Rightarrow> bool" where
  "parses_verbatim parse s =
     (parse s = Some \<lparr>url_prefix = s, url_query = None, url_searchParams = [],
                      url_fragment = None\<rparr>)"

section \<open>The payment-aware transport\<close>

text \<open>
  Modelled from the spec: the function \<^verbatim>\<open>wrapFetchWithPayment\<close> comes from the library
  \<^verbatim>\<open>@x402/fetch\<close>, whose code is not among the sources; the program only installs what it
  returns. The specification (Payment-Aware Transport) gives its state machine per call:
  issue the request unmodified; if the response signals payment required, derive the payment
  authorization from the response's terms with the signing capability, failing with a
  PaymentError if it cannot be produced, and issue the request again with the authorization
  attached; whatever comes back then is final. The signal is the HTTP status 402.
\<close>

definition payment_required :: "response \<Rightarrow> bool" where
  "payment_required r = (status r = 402)"

definition spec_wrapFetchWithPayment ::
  "'w transport \<Rightarrow> (response \<Rightarrow> string option) \<Rightarrow> 'w transport" where
  "spec_wrapFetchWithPayment plain signer req w =
     (case plain req w of
        (Inl e, w1) \<Rightarrow> (Inl e, w1)
      | (Inr r, w1) \<Rightarrow>
          if \<not> payment_required r then (Inr r, w1)
          else
            (case signer r of
               None \<Rightarrow> (Inl PaymentError, w1)
             | Some auth \<Rightarrow> plain (req\<lparr>req_payment := Some auth\<rparr>) w1))"

section \<open>A platform for the closed examples\<close>

text \<open>
  JSON values are represented by their text; the URL parser is \<open>parsed_verbatim\<close>; the
  global \<^verbatim>\<open>fetch\<close> is given; the payment wrapper is the one of the specification, with a
  signing capability that signs with the key.
\<close>

definition example_platform ::
  "'w transport \<Rightarrow> ('w, string, response \<Rightarrow> string option) platform" where
  "example_platform plain =
     \<lparr>URL_new = parsed_verbatim,
      JSON_parse = Some,
      JSON_stringify = (\<lambda>v n. v),
      fetch = plain,
      wrapFetchWithPayment = spec_wrapFetchWithPayment,
      createClient = (\<lambda>key. Some (\<lambda>r. Some (''signed:'' @ key)))\<rparr>"

text \<open>A transport that answers every request with the same response.\<close>

definition constant_transport :: "response \<Rightarrow> 'w transport" where
  "constant_transport r req w = (Inr r, w)"

text \<open>A remote API that answers every request with the same response.\<close>

definition always :: "response \<Rightarrow> request list \<Rightarrow> request \<Rightarrow> error + response" where
  "always r log req = Inr r"

section \<open>Words of the specification about the tool catalog\<close>

text \<open>
  A list of registered tools serves a row of the catalog (name, parameter, endpoint): the
  tool of that name is registered, declares that single parameter, and its handler, given the
  argument object with that parameter, calls the API at the endpoint of the row and formats
  the result. The parameter set of the call is the declared parameter with its value, except
  for \<^verbatim>\<open>full_scan\<close>, where it is what the target classifier gives for the value.
\<close>

definition row_served ::
  "('w, 'j, 'c) platform \<Rightarrow> 'w module_state \<Rightarrow> 'w tool list \<Rightarrow> string \<times> string \<times> string \<Rightarrow> bool"
  where
  "row_served P m tools row =
     (case row of (name, key, endpoint) \<Rightarrow>
        (\<exists>t. find_tool tools name = Some t \<and> tool_schema t = [key]
           \<and> (\<forall>v w. tool_handler t [(key, v)] w =
                 respond P (callShieldApi P m endpoint
                   (if name = ''full_scan'' then detectTargetType v else [(key, v)]) w))))"

section \<open>Properties of the matcher\<close>

lemma regex_test_One:
  "regex_test ((cls, One) # as) s = (\<exists>c r. s = c # r \<and> cls c \<and> regex_test as r)"
  by (cases s) auto

lemma regex_test_OneOrMore:
  "regex_test ((cls, OneOrMore) # as) s =
     (\<exists>g r. s = g @ r \<and> g \<noteq> [] \<and> (\<forall>c \<in> set g. cls c) \<and> regex_test as r)"
proof (induction s)
  case Nil
  then show ?case by simp
next
  case (Cons x xs)
  show ?case
  proof
    assume m: "regex_test ((cls, OneOrMore) # as) (x # xs)"
    then have x: "cls x" by simp
    from m have "regex_test ((cls, OneOrMore) # as) xs \<or> regex_test as xs" by simp
    then show "\<exists>g r. x # xs = g @ r \<and> g \<noteq> [] \<and> (\<forall>c \<in> set g. cls c) \<and> regex_test as r"
    proof
      assume "regex_test ((cls, OneOrMore) # as) xs"
      with Cons.IH obtain g r where
        "xs = g @ r" "\<forall>c \<in> set g. cls c" "regex_test as r" by blast
      with x have "x # xs = (x # g) @ r \<and> x # g \<noteq> [] \<and> (\<forall>c \<in> set (x # g). cls c)
          \<and> regex_test as r" by simp
      then show ?thesis by blast
    next
      assume "regex_test as xs"
      with x have "x # xs = [x] @ xs \<and> [x] \<noteq> [] \<and> (\<forall>c \<in> set [x]. cls c)
          \<and> regex_test as xs" by simp
      then show ?thesis by blast
    qed
  next
    assume "\<exists>g r. x # xs = g @ r \<and> g \<noteq> [] \<and> (\<forall>c \<in> set g. cls c) \<and> regex_test as r"
    then obtain g r where g: "x # xs = g @ r" "g \<noteq> []" "\<forall>c \<in> set g. cls c"
      and r: "regex_test as r" by blast
    from g obtain g' where g': "g = x # g'" by (cases g) auto
    with g have xs: "xs = g' @ r" and x: "cls x" and all: "\<forall>c \<in> set g'. cls c" by auto
    show "regex_test ((cls, OneOrMore) # as) (x # xs)"
    proof (cases "g' = []")
      case True
      with xs r x show ?thesis by simp
    next
      case False
      with xs all r Cons.IH have "regex_test ((cls, OneOrMore) # as) xs" by blast
      with x show ?thesis by simp
    qed
  qed
qed

lemma regex_test_last_group:
  "regex_test [(cls, OneOrMore)] s = (s \<noteq> [] \<and> (\<forall>c \<in> set s. cls c))"
  by (auto simp: regex_test_OneOrMore)

lemma regex_test_group_dot:
  "regex_test ((is_digit, OneOrMore) # (is_dot, One) # as) s =
     (\<exists>g r. s = g @ ''.'' @ r \<and> digit_group g \<and> regex_test as r)"
  unfolding regex_test_OneOrMore regex_test_One digit_group_def is_dot_def
  by (rule iffI; clarsimp; blast)

lemma ipv4_regex_four_digit_groups:
  "regex_test ipv4_regex s = four_digit_groups s"
proof -
  have "regex_test ipv4_regex s =
      (\<exists>a r1. s = a @ ''.'' @ r1 \<and> digit_group a \<and>
        (\<exists>b r2. r1 = b @ ''.'' @ r2 \<and> digit_group b \<and>
          (\<exists>c d. r2 = c @ ''.'' @ d \<and> digit_group c \<and> digit_group d)))"
    unfolding ipv4_regex_def regex_test_group_dot regex_test_last_group
    by (simp add: digit_group_def)
  also have "\<dots> = four_digit_groups s"
    unfolding four_digit_groups_def by blast
  finally show ?thesis .
qed

lemma startsWith_append: "startsWith s p = (\<exists>r. s = p @ r)"
  unfolding startsWith_def
  by (metis append_eq_conv_conj append_take_drop_id)

lemma not_is_digit_at: "\<not> is_digit (CHR ''@'')"
  by (simp add: is_digit_def)

lemma digit_group_no_at: "digit_group g \<Longrightarrow> CHR ''@'' \<notin> set g"
  using not_is_digit_at unfolding digit_group_def by blast

lemma four_digit_groups_no_at:
  assumes "four_digit_groups s"
  shows "\<not> includes_js s (CHR ''@'')"
proof -
  from assms obtain a b c d where s: "s = a @ ''.'' @ b @ ''.'' @ c @ ''.'' @ d"
    and g: "digit_group a" "digit_group b" "digit_group c" "digit_group d"
    unfolding four_digit_groups_def by blast
  from g have "CHR ''@'' \<notin> set a" "CHR ''@'' \<notin> set b" "CHR ''@'' \<notin> set c" "CHR ''@'' \<notin> set d"
    by (simp_all add: digit_group_no_at)
  then show ?thesis
    unfolding includes_js_def s by simp
qed

section \<open>Claims about the target classifier\<close>

text \<open>
  C1. For every input string the classifier returns an object with exactly one key, whose
  value is the input unchanged, and the key is chosen by the first rule that applies: a string
  containing \<^verbatim>\<open>@\<close> gives \<^verbatim>\<open>email\<close>; otherwise a string that is, as a whole, four
  dot-separated groups of one-or-more ASCII digits gives \<^verbatim>\<open>ip\<close>; otherwise a string
  beginning with \<^verbatim>\<open>http://\<close> or \<^verbatim>\<open>https://\<close> gives \<^verbatim>\<open>url\<close>; otherwise \<^verbatim>\<open>domain\<close>.
  The function is total: it is a HOL function with no error value in its result type.
\<close>

theorem detectTargetType_first_match:
  "detectTargetType s =
     (if CHR ''@'' \<in> set s then [(''email'', s)]
      else if four_digit_groups s then [(''ip'', s)]
      else if (\<exists>r. s = ''http://'' @ r) \<or> (\<exists>r. s = ''https://'' @ r) then [(''url'', s)]
      else [(''domain'', s)])
   \<and> (\<exists>k \<in> {''email'', ''ip'', ''url'', ''domain''}. detectTargetType s = [(k, s)])"
proof -
  have "detectTargetType s =
     (if CHR ''@'' \<in> set s then [(''email'', s)]
      else if four_digit_groups s then [(''ip'', s)]
      else if (\<exists>r. s = ''http://'' @ r) \<or> (\<exists>r. s = ''https://'' @ r) then [(''url'', s)]
      else [(''domain'', s)])"
    unfolding detectTargetType_def ipv4_regex_four_digit_groups startsWith_append
      includes_js_def ..
  moreover have "\<exists>k \<in> {''email'', ''ip'', ''url'', ''domain''}. detectTargetType s = [(k, s)]"
    unfolding detectTargetType_def by simp
  ultimately show ?thesis ..
qed

theorem detectTargetType_first_match_witness:
  "detectTargetType ''https://example.com/path'' = [(''url'', ''https://example.com/path'')]
   \<and> detectTargetType ''https://a@b'' = [(''email'', ''https://a@b'')]
   \<and> detectTargetType ''8.8.8.8'' = [(''ip'', ''8.8.8.8'')]
   \<and> detectTargetType ''example.com'' = [(''domain'', ''example.com'')]"
proof -
  have ip: "four_digit_groups ''8.8.8.8''"
    by (simp only: ipv4_regex_four_digit_groups [symmetric]) code_simp
  have no: "\<not> four_digit_groups s" if "regex_test ipv4_regex s = False" for s
    using that by (simp add: ipv4_regex_four_digit_groups)
  have n1: "\<not> four_digit_groups ''https://example.com/path''"
    by (rule no) code_simp
  have n2: "\<not> four_digit_groups ''example.com''"
    by (rule no) code_simp
  show ?thesis
    using detectTargetType_first_match [of "''https://example.com/path''"]
      detectTargetType_first_match [of "''https://a@b''"]
      detectTargetType_first_match [of "''8.8.8.8''"]
      detectTargetType_first_match [of "''example.com''"]
      ip n1 n2
    by simp
qed

text \<open>
  C7. Every string made of four dot-separated groups of one-or-more ASCII digits is classified
  as \<^verbatim>\<open>ip\<close>, with no check of the range of a group: \<^verbatim>\<open>999.999.999.999\<close> is an
  \<^verbatim>\<open>ip\<close>. A numeric string with only three groups, \<^verbatim>\<open>8.8.8\<close>, is a \<^verbatim>\<open>domain\<close>.
\<close>

theorem detectTargetType_ip_shape:
  "(\<forall>a b c d. digit_group a \<and> digit_group b \<and> digit_group c \<and> digit_group d \<longrightarrow>
      detectTargetType (a @ ''.'' @ b @ ''.'' @ c @ ''.'' @ d) =
        [(''ip'', a @ ''.'' @ b @ ''.'' @ c @ ''.'' @ d)])
   \<and> detectTargetType ''999.999.999.999'' = [(''ip'', ''999.999.999.999'')]
   \<and> detectTargetType ''8.8.8'' = [(''domain'', ''8.8.8'')]"
proof (intro conjI allI impI)
  fix a b c d
  assume g: "digit_group a \<and> digit_group b \<and> digit_group c \<and> digit_group d"
  let ?s = "a @ ''.'' @ b @ ''.'' @ c @ ''.'' @ d"
  from g have f: "four_digit_groups ?s"
    unfolding four_digit_groups_def by blast
  then have "regex_test ipv4_regex ?s"
    by (simp only: ipv4_regex_four_digit_groups)
  moreover from f have "\<not> includes_js ?s (CHR ''@'')"
    by (rule four_digit_groups_no_at)
  ultimately show "detectTargetType ?s = [(''ip'', ?s)]"
    unfolding detectTargetType_def by simp
next
  show "detectTargetType ''999.999.999.999'' = [(''ip'', ''999.999.999.999'')]"
    by code_simp
next
  show "detectTargetType ''8.8.8'' = [(''domain'', ''8.8.8'')]"
    by code_simp
qed

theorem detectTargetType_ip_shape_witness:
  "digit_group ''300'' \<and> digit_group ''1'' \<and> digit_group ''02'' \<and> digit_group ''4567''
   \<and> detectTargetType ''300.1.02.4567'' = [(''ip'', ''300.1.02.4567'')]"
proof -
  have g: "digit_group ''300'' \<and> digit_group ''1'' \<and> digit_group ''02'' \<and> digit_group ''4567''"
    by code_simp
  from detectTargetType_ip_shape
  have "digit_group ''300'' \<and> digit_group ''1'' \<and> digit_group ''02'' \<and> digit_group ''4567'' \<longrightarrow>
      detectTargetType (''300'' @ ''.'' @ ''1'' @ ''.'' @ ''02'' @ ''.'' @ ''4567'') =
        [(''ip'', ''300'' @ ''.'' @ ''1'' @ ''.'' @ ''02'' @ ''.'' @ ''4567'')]"
    by blast
  with g show ?thesis by simp
qed

section \<open>Properties of the query serialisation\<close>

lemma hex_digit_cases: "d < 16 \<Longrightarrow> hex_digit d \<in> set ''0123456789ABCDEF''"
  unfolding hex_digit_def by (rule nth_mem) simp

lemma hex_digit_not_eq: "d < 16 \<Longrightarrow> hex_digit d \<noteq> CHR ''=''"
  using hex_digit_cases [of d] by auto

lemma not_safe_eq: "\<not> urlencoded_safe (CHR ''='')"
  by (simp add: urlencoded_safe_def is_alnum_def)

lemma urlencode_byte_no_eq: "CHR ''='' \<notin> set (urlencode_byte b)"
proof -
  have "(of_char b :: nat) div 16 < 16"
    by (rule less_mult_imp_div_less) simp
  moreover have "(of_char b :: nat) mod 16 < 16" by simp
  ultimately have "(of_char b :: nat) div 16 < 16" "(of_char b :: nat) mod 16 < 16"
    by blast+
  then have "hex_digit ((of_char b :: nat) div 16) \<noteq> CHR ''=''"
    "hex_digit ((of_char b :: nat) mod 16) \<noteq> CHR ''=''"
    by (simp_all only: hex_digit_not_eq not_False_eq_True)
  then show ?thesis
    using not_safe_eq
    by (auto simp: urlencode_byte_def percent_encode_byte_def)
qed

lemma urlencode_no_eq: "CHR ''='' \<notin> set (urlencode s)"
  unfolding urlencode_def using urlencode_byte_no_eq by auto

lemma urlencode_Nil: "urlencode [] = []"
  by (simp add: urlencode_def)

lemma urlencode_Cons:
  "urlencode (c # s) = concat (map urlencode_byte (utf8_encode c)) @ urlencode s"
  by (simp add: urlencode_def)

lemma safe_ascii: "urlencoded_safe b \<Longrightarrow> (of_char b :: nat) < 128"
  unfolding urlencoded_safe_def is_alnum_def by auto

lemma urlencode_char_plain:
  assumes "CHR ''%'' \<notin> set (concat (map urlencode_byte (utf8_encode c)))"
    and "CHR ''+'' \<notin> set (concat (map urlencode_byte (utf8_encode c)))"
  shows "concat (map urlencode_byte (utf8_encode c)) = [c]"
proof (cases "(of_char c :: nat) < 128")
  case True
  with assms show ?thesis
    by (auto simp: utf8_encode_def urlencode_byte_def percent_encode_byte_def split: if_splits)
next
  case False
  let ?b = "char_of (192 + (of_char c :: nat) div 64) :: char"
  have "(of_char c :: nat) div 64 < 4"
    by (rule less_mult_imp_div_less) simp
  then have "(of_char ?b :: nat) = 192 + (of_char c :: nat) div 64" by simp
  then have "\<not> (of_char ?b :: nat) < 128" by simp
  then have "\<not> urlencoded_safe ?b" using safe_ascii by blast
  moreover have "?b \<noteq> CHR '' ''"
  proof
    assume "?b = CHR '' ''"
    then have "(of_char ?b :: nat) = of_char (CHR '' '')" by simp
    with \<open>\<not> (of_char ?b :: nat) < 128\<close> show False by simp
  qed
  ultimately have "urlencode_byte ?b = percent_encode_byte ?b"
    by (simp add: urlencode_byte_def)
  with False assms(1) show ?thesis
    by (simp add: utf8_encode_def percent_encode_byte_def)
qed

lemma urlencode_plain:
  "urlencode k = s \<Longrightarrow> CHR ''%'' \<notin> set s \<Longrightarrow> CHR ''+'' \<notin> set s \<Longrightarrow> k = s"
proof (induction k arbitrary: s)
  case Nil
  then show ?case by (simp add: urlencode_Nil)
next
  case (Cons c k)
  let ?e = "concat (map urlencode_byte (utf8_encode c))"
  from Cons.prems have s: "s = ?e @ urlencode k" by (simp add: urlencode_Cons)
  with Cons.prems have "CHR ''%'' \<notin> set ?e" "CHR ''+'' \<notin> set ?e" by auto
  then have e: "?e = [c]" by (rule urlencode_char_plain)
  with s have s': "s = c # urlencode k" by simp
  with Cons.prems have "CHR ''%'' \<notin> set (urlencode k)" "CHR ''+'' \<notin> set (urlencode k)" by auto
  with Cons.IH [of "urlencode k"] have "k = urlencode k" by simp
  with s' show ?case by simp
qed

lemma split_at_fresh:
  assumes "xs @ c # ys = xs' @ c # ys'" "c \<notin> set xs" "c \<notin> set xs'"
  shows "xs = xs' \<and> ys = ys'"
  using assms
proof (induction xs arbitrary: xs')
  case Nil
  then show ?case by (cases xs') auto
next
  case (Cons a xs)
  then show ?case by (cases xs') auto
qed

lemma urlencode_demo: "urlencode ''demo'' = ''demo''" by code_simp
lemma urlencode_true: "urlencode ''true'' = ''true''" by code_simp

lemma query_component_demo:
  "query_component (k, v) = ''demo=true'' \<longleftrightarrow> k = ''demo'' \<and> v = ''true''"
proof
  assume "query_component (k, v) = ''demo=true''"
  then have eq: "urlencode k @ CHR ''='' # urlencode v = ''demo'' @ CHR ''='' # ''true''"
    by (simp add: query_component_def)
  have fresh: "CHR ''='' \<notin> set ''demo''" by simp
  have "urlencode k = ''demo'' \<and> urlencode v = ''true''"
    by (rule split_at_fresh [OF eq urlencode_no_eq fresh])
  moreover have "CHR ''%'' \<notin> set ''demo''" "CHR ''+'' \<notin> set ''demo''"
    "CHR ''%'' \<notin> set ''true''" "CHR ''+'' \<notin> set ''true''" by simp_all
  ultimately show "k = ''demo'' \<and> v = ''true''"
    using urlencode_plain [of k "''demo''"] urlencode_plain [of v "''true''"] by blast
next
  assume "k = ''demo'' \<and> v = ''true''"
  then show "query_component (k, v) = ''demo=true''"
    by (simp add: query_component_def urlencode_demo urlencode_true)
qed

section \<open>Properties of the URL builder\<close>

lemma query_component_not_Nil: "query_component p \<noteq> []"
  by (simp add: query_component_def)

lemma join_amp_not_Nil: "xs \<noteq> [] \<Longrightarrow> hd xs \<noteq> [] \<Longrightarrow> join_amp xs \<noteq> []"
  by (induction xs rule: join_amp.induct) auto

lemma urlencoded_serialize_not_Nil: "l \<noteq> [] \<Longrightarrow> urlencoded_serialize l \<noteq> []"
  unfolding urlencoded_serialize_def
  by (rule join_amp_not_Nil) (simp_all add: hd_map query_component_not_Nil)

lemma list_set_fresh: "k \<notin> fst ` set l \<Longrightarrow> list_set k v l = l @ [(k, v)]"
  by (simp add: list_set_def)

lemma list_set_not_Nil: "list_set k v l \<noteq> []"
  by (cases l) (auto simp: list_set_def)

lemma searchParams_set_fields:
  "url_prefix (searchParams_set k v u) = url_prefix u"
  "url_fragment (searchParams_set k v u) = url_fragment u"
  "url_searchParams (searchParams_set k v u) = list_set k v (url_searchParams u)"
  "url_query (searchParams_set k v u) =
     Some (urlencoded_serialize (list_set k v (url_searchParams u)))"
  by (simp_all add: searchParams_set_def Let_def urlencoded_serialize_not_Nil list_set_not_Nil)

lemma mem_list_set: "(k, v) \<in> set (list_set k v l)"
proof (cases "k \<in> fst ` set l")
  case False
  then show ?thesis by (simp add: list_set_fresh)
next
  case True
  then have "(k, v) \<in> set (replace_first k v l)"
    by (induction l) auto
  with True show ?thesis by (simp add: list_set_def)
qed

lemma synced_searchParams_set: "synced (searchParams_set k v u)"
  by (simp add: synced_def searchParams_set_fields list_set_not_Nil)

lemma fold_set_fresh:
  assumes "distinct (map fst ps)" "fst ` set ps \<inter> fst ` set (url_searchParams u) = {}"
    "synced u"
  shows "url_searchParams (fold (\<lambda>(key, value). searchParams_set key value) ps u)
           = url_searchParams u @ ps
     \<and> url_prefix (fold (\<lambda>(key, value). searchParams_set key value) ps u) = url_prefix u
     \<and> url_fragment (fold (\<lambda>(key, value). searchParams_set key value) ps u) = url_fragment u
     \<and> synced (fold (\<lambda>(key, value). searchParams_set key value) ps u)"
  using assms
proof (induction ps arbitrary: u)
  case Nil
  then show ?case by simp
next
  case (Cons p ps)
  obtain k v where p: "p = (k, v)" by (cases p)
  let ?u = "searchParams_set k v u"
  from Cons.prems p have fresh: "k \<notin> fst ` set (url_searchParams u)" by auto
  then have l: "url_searchParams ?u = url_searchParams u @ [(k, v)]"
    by (simp add: searchParams_set_fields list_set_fresh)
  from Cons.prems p have "distinct (map fst ps)" by simp
  moreover from Cons.prems p l have "fst ` set ps \<inter> fst ` set (url_searchParams ?u) = {}"
    by auto
  moreover have "synced ?u" by (rule synced_searchParams_set)
  ultimately have "url_searchParams (fold (\<lambda>(key, value). searchParams_set key value) ps ?u)
           = url_searchParams ?u @ ps
     \<and> url_prefix (fold (\<lambda>(key, value). searchParams_set key value) ps ?u) = url_prefix ?u
     \<and> url_fragment (fold (\<lambda>(key, value). searchParams_set key value) ps ?u) = url_fragment ?u
     \<and> synced (fold (\<lambda>(key, value). searchParams_set key value) ps ?u)"
    by (rule Cons.IH)
  with l p show ?case by (simp add: searchParams_set_fields)
qed

lemma href_synced:
  "synced u \<Longrightarrow> url_fragment u = None \<Longrightarrow> href u = url_prefix u @ query_suffix (url_searchParams u)"
  by (simp add: href_def synced_def query_suffix_def)

lemma buildUrl_fresh:
  assumes parse: "parse (base @ ''/api/'' @ endpoint) =
      Some \<lparr>url_prefix = pre, url_query = None, url_searchParams = [], url_fragment = None\<rparr>"
    and keys: "distinct (map fst params)" "''demo'' \<notin> fst ` set params"
  shows "buildUrl parse base endpoint params demo =
      Inr (pre @ query_suffix (params @ demo_pair demo))"
proof -
  let ?u0 = "\<lparr>url_prefix = pre, url_query = None, url_searchParams = [], url_fragment = None\<rparr>"
  let ?u1 = "fold (\<lambda>(key, value). searchParams_set key value) params ?u0"
  have "synced ?u0" by (simp add: synced_def)
  with keys(1) have u1: "url_searchParams ?u1 = params" "url_prefix ?u1 = pre"
    "url_fragment ?u1 = None" "synced ?u1"
    using fold_set_fresh [of params ?u0] by simp_all
  show ?thesis
  proof (cases demo)
    case False
    with parse u1 show ?thesis
      by (simp add: buildUrl_def Let_def href_synced demo_pair_def)
  next
    case True
    let ?u2 = "searchParams_set ''demo'' ''true'' ?u1"
    from u1 keys(2) have "url_searchParams ?u2 = params @ [(''demo'', ''true'')]"
      by (simp add: searchParams_set_fields list_set_fresh)
    moreover have "synced ?u2" by (rule synced_searchParams_set)
    moreover from u1 have "url_prefix ?u2 = pre" "url_fragment ?u2 = None"
      by (simp_all add: searchParams_set_fields)
    ultimately have "href ?u2 = pre @ query_suffix (params @ [(''demo'', ''true'')])"
      by (simp add: href_synced)
    with parse True show ?thesis
      by (simp add: buildUrl_def Let_def demo_pair_def)
  qed
qed

section \<open>Claims about the URL builder\<close>

text \<open>
  C2, as amended. Let the URL parser return the base URL followed by \<^verbatim>\<open>/api/\<close> and the
  endpoint unchanged, with no query and no fragment, and let the parameters have distinct
  keys, none of them \<^verbatim>\<open>demo\<close>. Then the built URL is that string, followed (if there is
  a parameter or the demo flag is set) by \<^verbatim>\<open>?\<close> and the form-urlencoded pairs of the
  supplied parameters, in their order, and then \<^verbatim>\<open>demo=true\<close> when the demo flag is set;
  and \<^verbatim>\<open>demo=true\<close> is among the pairs of the query if and only if the demo flag is set.
\<close>

theorem buildUrl_query:
  assumes "parse (base @ ''/api/'' @ endpoint) =
      Some \<lparr>url_prefix = base @ ''/api/'' @ endpoint, url_query = None,
            url_searchParams = [], url_fragment = None\<rparr>"
    and "distinct (map fst params)"
    and "''demo'' \<notin> fst ` set params"
  shows "buildUrl parse base endpoint params demo =
      Inr (base @ ''/api/'' @ endpoint @ query_suffix (params @ demo_pair demo))
    \<and> (''demo=true'' \<in> set (map query_component (params @ demo_pair demo)) \<longleftrightarrow> demo)"
proof
  show "buildUrl parse base endpoint params demo =
      Inr (base @ ''/api/'' @ endpoint @ query_suffix (params @ demo_pair demo))"
    using buildUrl_fresh [of parse base endpoint "base @ ''/api/'' @ endpoint" params demo] assms
    by simp
next
  have "''demo=true'' \<notin> set (map query_component params)"
  proof
    assume "''demo=true'' \<in> set (map query_component params)"
    then obtain k v where "(k, v) \<in> set params" "query_component (k, v) = ''demo=true''"
      by auto
    then have "(''demo'', v) \<in> set params" by (simp add: query_component_demo)
    with assms(3) show False by force
  qed
  moreover have "query_component (''demo'', ''true'') = ''demo=true''"
    by (simp add: query_component_demo)
  ultimately show "''demo=true'' \<in> set (map query_component (params @ demo_pair demo)) \<longleftrightarrow> demo"
    by (cases demo) (simp_all add: demo_pair_def)
qed

theorem buildUrl_query_witness:
  "buildUrl parsed_verbatim ''https://shield.vainplex.dev'' ''check-url''
      [(''url'', ''https://evil.com'')] False =
     Inr ''https://shield.vainplex.dev/api/check-url?url=https%3A%2F%2Fevil.com''"
proof -
  have p: "parsed_verbatim (''https://shield.vainplex.dev'' @ ''/api/'' @ ''check-url'') =
      Some \<lparr>url_prefix = ''https://shield.vainplex.dev'' @ ''/api/'' @ ''check-url'',
            url_query = None, url_searchParams = [], url_fragment = None\<rparr>"
    by (simp add: parsed_verbatim_def)
  have d: "distinct (map fst [(''url'', ''https://evil.com'')])" by simp
  have n: "''demo'' \<notin> fst ` set [(''url'', ''https://evil.com'')]" by simp
  have q: "query_suffix ([(''url'', ''https://evil.com'')] @ demo_pair False) =
      ''?url=https%3A%2F%2Fevil.com''"
    by code_simp
  have "buildUrl parsed_verbatim ''https://shield.vainplex.dev'' ''check-url''
      [(''url'', ''https://evil.com'')] False =
     Inr (''https://shield.vainplex.dev'' @ ''/api/'' @ ''check-url''
       @ query_suffix ([(''url'', ''https://evil.com'')] @ demo_pair False))"
    using buildUrl_query [of parsed_verbatim "''https://shield.vainplex.dev''" "''check-url''"
        "[(''url'', ''https://evil.com'')]" False] p d n
    by blast
  then show ?thesis
    unfolding q by simp
qed

text \<open>
  C2 as it is stated, for every parameter map and every base URL, fails. On a map with the
  key \<^verbatim>\<open>demo\<close>, since \<^verbatim>\<open>searchParams.set\<close> replaces by name: with the demo flag off,
  the parameter \<^verbatim>\<open>demo=true\<close> of the map is in the URL; with the demo flag on, the
  parameter \<^verbatim>\<open>demo=1\<close> of the map is not. And on a base URL that has a query,
  \<^verbatim>\<open>https://example.com?x=1\<close>: the path of the built URL is \<^verbatim>\<open>/\<close>, and
  \<^verbatim>\<open>/api/check-url\<close> ends up in the value of \<^verbatim>\<open>x\<close>.
\<close>

theorem buildUrl_demo_key_counterexample:
  "buildUrl parsed_verbatim ''https://shield.vainplex.dev'' ''check-url''
      [(''demo'', ''true'')] False =
     Inr ''https://shield.vainplex.dev/api/check-url?demo=true''
   \<and> buildUrl parsed_verbatim ''https://shield.vainplex.dev'' ''check-url''
      [(''demo'', ''1'')] True =
     Inr ''https://shield.vainplex.dev/api/check-url?demo=true''
   \<and> buildUrl parsed_with_query ''https://example.com?x=1'' ''check-url''
      [(''url'', ''a'')] False =
     Inr ''https://example.com/?x=1%2Fapi%2Fcheck-url&url=a''"
  by code_simp

section \<open>Claims about the API caller\<close>

lemma substring_0: "substring s 0 n = take n s"
  by (simp add: substring_def)

text \<open>
  C3. Whenever the transport delivers a response to the API caller: if the status is 2xx, the
  result of the call is the result of parsing the body as JSON, passed on as it is; if the
  status is not 2xx, the call fails with an error whose message holds the endpoint name, the
  status code and the first 200 characters of the body at most; a response that is not 2xx
  never yields a successful result, neither of the call nor of a tool handler built on it.
\<close>

theorem callShieldApi_response:
  assumes "buildUrl (URL_new P) (SHIELDAPI_URL m) endpoint params (demoMode m) = Inr u"
    and "paymentFetch m \<lparr>req_url = u, req_payment = None\<rparr> w = (Inr r, w')"
  shows "ok r = (200 \<le> status r \<and> status r \<le> 299)
       \<and> (ok r \<longrightarrow>
            fst (callShieldApi P m endpoint params w) = response_json P r
          \<and> (\<forall>v. JSON_parse P (body r) = Some v \<longrightarrow>
                fst (callShieldApi P m endpoint params w) = Inr v))
       \<and> (\<not> ok r \<longrightarrow>
            fst (callShieldApi P m endpoint params w) =
              Inl (Error (''ShieldAPI '' @ endpoint @ '' failed ('' @ string_of_nat (status r)
                          @ ''): '' @ take 200 (body r)))
          \<and> (\<forall>v. fst (callShieldApi P m endpoint params w) \<noteq> Inr v)
          \<and> (\<forall>v. fst (respond P (callShieldApi P m endpoint params w)) \<noteq> Inr v))"
proof -
  have c: "ok r = (200 \<le> status r \<and> status r \<le> 299)"
    by (simp add: ok_def)
  have "(ok r \<longrightarrow>
            fst (callShieldApi P m endpoint params w) = response_json P r
          \<and> (\<forall>v. JSON_parse P (body r) = Some v \<longrightarrow>
                fst (callShieldApi P m endpoint params w) = Inr v))
       \<and> (\<not> ok r \<longrightarrow>
            fst (callShieldApi P m endpoint params w) =
              Inl (Error (''ShieldAPI '' @ endpoint @ '' failed ('' @ string_of_nat (status r)
                          @ ''): '' @ take 200 (body r)))
          \<and> (\<forall>v. fst (callShieldApi P m endpoint params w) \<noteq> Inr v)
          \<and> (\<forall>v. fst (respond P (callShieldApi P m endpoint params w)) \<noteq> Inr v))"
  proof (cases "ok r")
    case True
    with assms have "callShieldApi P m endpoint params w = (response_json P r, w')"
      by (simp add: callShieldApi_def)
    with True show ?thesis
      by (simp add: response_json_def)
  next
    case False
    with assms have "callShieldApi P m endpoint params w =
        (Inl (Error (failure_message endpoint r)), w')"
      by (simp add: callShieldApi_def)
    with False show ?thesis
      by (simp add: failure_message_def substring_0 respond_def)
  qed
  with c show ?thesis by (rule conjI)
qed


theorem callShieldApi_response_witness:
  "fst (callShieldApi
      (example_platform (network_fetch (always \<lparr>status = 404, body = replicate 250 (CHR ''x'')\<rparr>)))
      (module_init (example_platform (network_fetch (always \<lparr>status = 404, body = replicate 250 (CHR ''x'')\<rparr>)))
         Map.empty)
      ''check-ip'' [(''ip'', ''8.8.8.8'')] [])
   = Inl (Error (''ShieldAPI check-ip failed (404): '' @ replicate 200 (CHR ''x'')))"
proof -
  let ?r = "\<lparr>status = 404, body = replicate 250 (CHR ''x'')\<rparr>"
  let ?P = "example_platform (network_fetch (always ?r))"
  let ?m = "module_init ?P Map.empty"
  let ?u = "''https://shield.vainplex.dev/api/check-ip?ip=8.8.8.8&demo=true''"
  have u: "buildUrl (URL_new ?P) (SHIELDAPI_URL ?m) ''check-ip'' [(''ip'', ''8.8.8.8'')]
      (demoMode ?m) = Inr ?u"
    by code_simp
  have f: "paymentFetch ?m \<lparr>req_url = ?u, req_payment = None\<rparr> [] =
      (Inr ?r, [\<lparr>req_url = ?u, req_payment = None\<rparr>])"
    by (simp add: module_init_def example_platform_def network_fetch_def always_def)
  have n: "\<not> ok ?r" by (simp add: ok_def)
  have s: "string_of_nat (status ?r) = ''404''" by code_simp
  from callShieldApi_response [OF u f] n
  have "fst (callShieldApi ?P ?m ''check-ip'' [(''ip'', ''8.8.8.8'')] []) =
      Inl (Error (''ShieldAPI '' @ ''check-ip'' @ '' failed ('' @ string_of_nat (status ?r)
                  @ ''): '' @ take 200 (body ?r)))"
    by blast
  then show ?thesis
    unfolding s by simp
qed

section \<open>Claims about the operating mode\<close>

lemma buildUrl_demo_marker:
  assumes "buildUrl parse base endpoint params True = Inr u"
  shows "carries_demo_marker u"
proof -
  from assms obtain url where "parse (base @ ''/api/'' @ endpoint) = Some url"
    by (auto simp: buildUrl_def split: option.splits)
  with assms have
    "u = href (searchParams_set ''demo'' ''true''
           (fold (\<lambda>(key, value). searchParams_set key value) params url))"
    by (simp add: buildUrl_def Let_def)
  then show ?thesis
    unfolding carries_demo_marker_def
    by (intro exI [of _ "searchParams_set ''demo'' ''true''
           (fold (\<lambda>(key, value). searchParams_set key value) params url)"])
       (simp add: searchParams_set_fields mem_list_set)
qed

lemma demoMode_module_init:
  "demoMode (module_init P env) = falsy (env ''SHIELDAPI_WALLET_PRIVATE_KEY'')"
  by (simp add: demoMode_def module_init_def)

lemma initPaymentFetch_demo: "demoMode m \<Longrightarrow> initPaymentFetch P m = Inr m"
  by (simp add: initPaymentFetch_def)

lemma callShieldApi_network:
  assumes "paymentFetch m = network_fetch remote"
  shows "snd (callShieldApi P m endpoint params log) =
     (case buildUrl (URL_new P) (SHIELDAPI_URL m) endpoint params (demoMode m) of
        Inl e \<Rightarrow> log
      | Inr u \<Rightarrow> log @ [\<lparr>req_url = u, req_payment = None\<rparr>])"
  using assms
  by (simp add: callShieldApi_def network_fetch_def split: sum.splits)

text \<open>
  C4. In Demo mode the initialisation of the payment transport returns at once and leaves the
  transport as it is, the plain \<^verbatim>\<open>fetch\<close>, whatever the payment wrapper would do. So a
  call of the API, whatever the remote API answers, sends one request and no more, with no
  payment attached, and the URL of that request carries \<^verbatim>\<open>demo=true\<close>.
\<close>

theorem demo_mode_plain_fetch:
  assumes "demoMode (module_init P env)"
  shows "main P env = Inr (module_init P env)
    \<and> paymentFetch (module_init P env) = fetch P
    \<and> (\<forall>remote endpoint params log. fetch P = network_fetch remote \<longrightarrow>
          (\<forall>e. buildUrl (URL_new P) (SHIELDAPI_URL (module_init P env)) endpoint params True = Inl e
             \<longrightarrow> snd (callShieldApi P (module_init P env) endpoint params log) = log)
        \<and> (\<forall>u. buildUrl (URL_new P) (SHIELDAPI_URL (module_init P env)) endpoint params True = Inr u
             \<longrightarrow> snd (callShieldApi P (module_init P env) endpoint params log) =
                   log @ [\<lparr>req_url = u, req_payment = None\<rparr>]
                 \<and> carries_demo_marker u))"
proof (intro conjI allI impI)
  show "main P env = Inr (module_init P env)"
    using assms by (simp add: main_def initPaymentFetch_demo)
next
  show "paymentFetch (module_init P env) = fetch P"
    by (simp add: module_init_def)
next
  fix remote endpoint params log e
  assume "fetch P = network_fetch remote"
    and "buildUrl (URL_new P) (SHIELDAPI_URL (module_init P env)) endpoint params True = Inl e"
  then show "snd (callShieldApi P (module_init P env) endpoint params log) = log"
    using assms
    callShieldApi_network [of "module_init P env" remote P endpoint params log]
    by (simp add: module_init_def)
next
  fix remote endpoint params log u
  assume "fetch P = network_fetch remote"
    and "buildUrl (URL_new P) (SHIELDAPI_URL (module_init P env)) endpoint params True = Inr u"
  then show "snd (callShieldApi P (module_init P env) endpoint params log) =
      log @ [\<lparr>req_url = u, req_payment = None\<rparr>]"
    using assms
    callShieldApi_network [of "module_init P env" remote P endpoint params log]
    by (simp add: module_init_def)
next
  fix remote :: "request list \<Rightarrow> request \<Rightarrow> error + response"
  fix endpoint params u and log :: "request list"
  assume "buildUrl (URL_new P) (SHIELDAPI_URL (module_init P env)) endpoint params True = Inr u"
  then show "carries_demo_marker u" by (rule buildUrl_demo_marker)
qed


theorem demo_mode_plain_fetch_witness:
  "demoMode (module_init (example_platform (network_fetch (always \<lparr>status = 402, body = ''pay''\<rparr>))) Map.empty)
   \<and> snd (callShieldApi (example_platform (network_fetch (always \<lparr>status = 402, body = ''pay''\<rparr>)))
        (module_init (example_platform (network_fetch (always \<lparr>status = 402, body = ''pay''\<rparr>))) Map.empty)
        ''check-ip'' [(''ip'', ''8.8.8.8'')] [])
     = [\<lparr>req_url = ''https://shield.vainplex.dev/api/check-ip?ip=8.8.8.8&demo=true'',
         req_payment = None\<rparr>]
   \<and> carries_demo_marker ''https://shield.vainplex.dev/api/check-ip?ip=8.8.8.8&demo=true''"
proof -
  let ?P = "example_platform (network_fetch (always \<lparr>status = 402, body = ''pay''\<rparr>))"
  let ?m = "module_init ?P Map.empty"
  let ?u = "''https://shield.vainplex.dev/api/check-ip?ip=8.8.8.8&demo=true''"
  have d: "demoMode ?m"
    by (simp add: demoMode_module_init falsy_def)
  have f: "fetch ?P = network_fetch (always \<lparr>status = 402, body = ''pay''\<rparr>)"
    by (simp add: example_platform_def)
  have u: "buildUrl (URL_new ?P) (SHIELDAPI_URL ?m) ''check-ip'' [(''ip'', ''8.8.8.8'')] True
      = Inr ?u"
    by code_simp
  from demo_mode_plain_fetch [OF d] f u
  have "snd (callShieldApi ?P ?m ''check-ip'' [(''ip'', ''8.8.8.8'')] []) =
      [] @ [\<lparr>req_url = ?u, req_payment = None\<rparr>] \<and> carries_demo_marker ?u"
    by blast
  with d show ?thesis by simp
qed

text \<open>
  C10. With the variable \<^verbatim>\<open>SHIELDAPI_WALLET_PRIVATE_KEY\<close> set to the empty string the
  process is in Demo mode, as it is with the variable absent: the mode is decided by the
  credential being empty or absent, not by the variable being present. The start-up then
  leaves the plain \<^verbatim>\<open>fetch\<close> installed, every call of the API behaves as with the variable
  absent, and every built URL carries \<^verbatim>\<open>demo=true\<close>.
\<close>

theorem empty_key_is_demo_mode:
  "demoMode (module_init P env) =
     (case env ''SHIELDAPI_WALLET_PRIVATE_KEY'' of None \<Rightarrow> True | Some key \<Rightarrow> key = [])
   \<and> demoMode (module_init P (env(''SHIELDAPI_WALLET_PRIVATE_KEY'' \<mapsto> [])))
   \<and> demoMode (module_init P (env(''SHIELDAPI_WALLET_PRIVATE_KEY'' := None)))
   \<and> main P (env(''SHIELDAPI_WALLET_PRIVATE_KEY'' \<mapsto> [])) =
       Inr (module_init P (env(''SHIELDAPI_WALLET_PRIVATE_KEY'' \<mapsto> [])))
   \<and> paymentFetch (module_init P (env(''SHIELDAPI_WALLET_PRIVATE_KEY'' \<mapsto> []))) = fetch P
   \<and> (\<forall>endpoint params w.
         callShieldApi P (module_init P (env(''SHIELDAPI_WALLET_PRIVATE_KEY'' \<mapsto> [])))
           endpoint params w =
         callShieldApi P (module_init P (env(''SHIELDAPI_WALLET_PRIVATE_KEY'' := None)))
           endpoint params w)
   \<and> (\<forall>endpoint params u.
         buildUrl (URL_new P)
           (SHIELDAPI_URL (module_init P (env(''SHIELDAPI_WALLET_PRIVATE_KEY'' \<mapsto> []))))
           endpoint params
           (demoMode (module_init P (env(''SHIELDAPI_WALLET_PRIVATE_KEY'' \<mapsto> [])))) = Inr u
         \<longrightarrow> carries_demo_marker u)"
proof -
  let ?K = "''SHIELDAPI_WALLET_PRIVATE_KEY''"
  let ?m = "module_init P (env(?K \<mapsto> []))"
  have k: "?K \<noteq> ''SHIELDAPI_URL''" by simp
  have mode: "demoMode (module_init P env) =
      (case env ?K of None \<Rightarrow> True | Some key \<Rightarrow> key = [])"
    by (simp add: demoMode_module_init falsy_def)
  have d1: "demoMode ?m"
    by (simp add: demoMode_module_init falsy_def)
  have d2: "demoMode (module_init P (env(?K := None)))"
    by (simp add: demoMode_module_init falsy_def)
  have start: "main P (env(?K \<mapsto> [])) = Inr ?m"
    using d1 by (simp add: main_def initPaymentFetch_demo)
  have plain: "paymentFetch ?m = fetch P"
    by (simp add: module_init_def)
  have same: "callShieldApi P ?m endpoint params w =
      callShieldApi P (module_init P (env(?K := None))) endpoint params w"
    for endpoint params w
  proof -
    have "SHIELDAPI_URL ?m = SHIELDAPI_URL (module_init P (env(?K := None)))"
      using k by (simp add: module_init_def)
    moreover have "paymentFetch ?m = paymentFetch (module_init P (env(?K := None)))"
      by (simp add: module_init_def)
    moreover from d1 d2 have "demoMode ?m = demoMode (module_init P (env(?K := None)))"
      by simp
    ultimately show ?thesis
      unfolding callShieldApi_def by (simp only:)
  qed
  have marker: "carries_demo_marker u"
    if "buildUrl (URL_new P) (SHIELDAPI_URL ?m) endpoint params (demoMode ?m) = Inr u"
    for endpoint params u
    using that d1 buildUrl_demo_marker by simp
  from mode d1 d2 start plain same marker show ?thesis by blast
qed

theorem empty_key_is_demo_mode_witness:
  "main (example_platform (network_fetch (always \<lparr>status = 200, body = ''{}''\<rparr>)))
      [''SHIELDAPI_WALLET_PRIVATE_KEY'' \<mapsto> []] =
     Inr (module_init (example_platform (network_fetch (always \<lparr>status = 200, body = ''{}''\<rparr>)))
            [''SHIELDAPI_WALLET_PRIVATE_KEY'' \<mapsto> []])
   \<and> carries_demo_marker ''https://shield.vainplex.dev/api/check-ip?ip=8.8.8.8&demo=true''"
proof -
  let ?P = "example_platform (network_fetch (always \<lparr>status = 200, body = ''{}''\<rparr>))"
  let ?env = "[''SHIELDAPI_WALLET_PRIVATE_KEY'' \<mapsto> []] :: string \<rightharpoonup> string"
  let ?m = "module_init ?P ?env"
  have u: "buildUrl (URL_new ?P) (SHIELDAPI_URL ?m) ''check-ip'' [(''ip'', ''8.8.8.8'')]
      (demoMode ?m) = Inr ''https://shield.vainplex.dev/api/check-ip?ip=8.8.8.8&demo=true''"
    by (simp add: demoMode_module_init falsy_def) code_simp
  from empty_key_is_demo_mode [of ?P Map.empty] u show ?thesis by blast
qed

section \<open>Claims about the payment retry\<close>



lemma callShieldApi_snd:
  "snd (callShieldApi P m endpoint params w) =
     (case buildUrl (URL_new P) (SHIELDAPI_URL m) endpoint params (demoMode m) of
        Inl e \<Rightarrow> w
      | Inr u \<Rightarrow> snd (paymentFetch m \<lparr>req_url = u, req_payment = None\<rparr> w))"
  by (simp add: callShieldApi_def split: sum.splits prod.splits)








section \<open>Claims about the tools\<close>

lemma snd_respond: "snd (respond P x) = snd x"
  by (cases x) (simp add: respond_def split: sum.splits)

lemma callShieldApi_recorded:
  assumes "buildUrl (URL_new P) (SHIELDAPI_URL m) endpoint params (demoMode m) = Inr u"
    and "paymentFetch m = recorded t"
  shows "snd (snd (callShieldApi P m endpoint params (w, log))) =
     log @ [\<lparr>req_url = u, req_payment = None\<rparr>]"
  using assms
  by (simp add: callShieldApi_snd recorded_def split: prod.splits)

lemma detectTargetType_key:
  "\<exists>k \<in> {''email'', ''ip'', ''url'', ''domain''}. detectTargetType s = [(k, s)]"
  unfolding detectTargetType_def by simp

lemma detectTargetType_keys:
  "distinct (map fst (detectTargetType s))" "''demo'' \<notin> fst ` set (detectTargetType s)"
  using detectTargetType_key [of s] by auto

lemma full_scan_handler:
  "tool_handler (full_scan_tool P m) [(''target'', target)] w =
     respond P (callShieldApi P m ''full-scan'' (detectTargetType target) w)"
  by (simp add: full_scan_tool_def)

lemma find_full_scan:
  "find_tool (registered_tools P m) ''full_scan'' = Some (full_scan_tool P m)"
  "find_tool (registered_tools_from_TOOLS P m) ''full_scan'' = Some (full_scan_tool P m)"
  by (simp_all add: find_tool_def registered_tools_def registered_tools_from_TOOLS_def
      ordinary_tool_def table_tool_def TOOLS_def full_scan_tool_def)

lemma classify_user_example:
  "detectTargetType ''user@example.com'' = [(''email'', ''user@example.com'')]"
  by code_simp

lemma query_suffix_user_example:
  "query_suffix ([(''email'', ''user@example.com'')] @ demo_pair demo) =
     ''?email=user%40example.com'' @ (if demo then ''&demo=true'' else [])"
  by (cases demo) (simp_all, code_simp+)

text \<open>
  C8. The handler of \<^verbatim>\<open>full_scan\<close>, in either revision of the registrations, calls the API
  at the endpoint \<^verbatim>\<open>full-scan\<close> with the parameter set that the target classifier gives
  for the target. Over a transport that records the requests it is called with, and a URL
  parser that takes the base URL followed by \<^verbatim>\<open>/api/full-scan\<close> unchanged, the handler
  calls the transport exactly once, with the URL whose query is the classifier's single pair
  (and \<^verbatim>\<open>demo=true\<close> in Demo mode); for the target \<^verbatim>\<open>user@example.com\<close> the query is
  \<^verbatim>\<open>email=user%40example.com\<close>.
\<close>

theorem full_scan_sends_classified_target:
  assumes "parses_verbatim (URL_new P) (SHIELDAPI_URL m @ ''/api/'' @ ''full-scan'')"
    and "paymentFetch m = recorded t"
  shows "find_tool (registered_tools P m) ''full_scan'' = Some (full_scan_tool P m)
    \<and> find_tool (registered_tools_from_TOOLS P m) ''full_scan'' = Some (full_scan_tool P m)
    \<and> (\<forall>target w. tool_handler (full_scan_tool P m) [(''target'', target)] w =
          respond P (callShieldApi P m ''full-scan'' (detectTargetType target) w))
    \<and> (\<forall>target w log.
          snd (snd (tool_handler (full_scan_tool P m) [(''target'', target)] (w, log))) =
            log @ [\<lparr>req_url = SHIELDAPI_URL m @ ''/api/'' @ ''full-scan''
                       @ query_suffix (detectTargetType target @ demo_pair (demoMode m)),
                     req_payment = None\<rparr>])
    \<and> (\<forall>w log.
          snd (snd (tool_handler (full_scan_tool P m) [(''target'', ''user@example.com'')]
                      (w, log))) =
            log @ [\<lparr>req_url = SHIELDAPI_URL m @ ''/api/full-scan?email=user%40example.com''
                       @ (if demoMode m then ''&demo=true'' else []),
                     req_payment = None\<rparr>])"
proof -
  have url: "buildUrl (URL_new P) (SHIELDAPI_URL m) ''full-scan'' (detectTargetType target)
      (demoMode m) =
      Inr (SHIELDAPI_URL m @ ''/api/'' @ ''full-scan''
           @ query_suffix (detectTargetType target @ demo_pair (demoMode m)))" for target
    using assms(1) detectTargetType_keys [of target]
      buildUrl_fresh [of "URL_new P" "SHIELDAPI_URL m" "''full-scan''"
        "SHIELDAPI_URL m @ ''/api/'' @ ''full-scan''" "detectTargetType target" "demoMode m"]
    unfolding parses_verbatim_def by simp
  have sent: "snd (snd (tool_handler (full_scan_tool P m) [(''target'', target)] (w, log))) =
      log @ [\<lparr>req_url = SHIELDAPI_URL m @ ''/api/'' @ ''full-scan''
                 @ query_suffix (detectTargetType target @ demo_pair (demoMode m)),
               req_payment = None\<rparr>]" for target w log
    unfolding full_scan_handler snd_respond
    using url assms(2) by (rule callShieldApi_recorded)
  have example: "snd (snd (tool_handler (full_scan_tool P m) [(''target'', ''user@example.com'')]
                      (w, log))) =
      log @ [\<lparr>req_url = SHIELDAPI_URL m @ ''/api/full-scan?email=user%40example.com''
                 @ (if demoMode m then ''&demo=true'' else []),
               req_payment = None\<rparr>]" for w log
    unfolding sent classify_user_example query_suffix_user_example by simp
  from find_full_scan [of P m] full_scan_handler [of P m] sent example show ?thesis
    by blast
qed


theorem full_scan_sends_classified_target_witness:
  "snd (snd (tool_handler
      (full_scan_tool
         (example_platform (recorded (constant_transport \<lparr>status = 200, body = ''{}''\<rparr>)))
         (module_init
            (example_platform (recorded (constant_transport \<lparr>status = 200, body = ''{}''\<rparr>)))
            [''SHIELDAPI_WALLET_PRIVATE_KEY'' \<mapsto> ''0xabc'']))
      [(''target'', ''user@example.com'')] ((), [])))
   = [\<lparr>req_url = ''https://shield.vainplex.dev/api/full-scan?email=user%40example.com'',
       req_payment = None\<rparr>]"
proof -
  let ?t = "constant_transport \<lparr>status = 200, body = ''{}''\<rparr> :: unit transport"
  let ?P = "example_platform (recorded ?t)"
  let ?m = "module_init ?P [''SHIELDAPI_WALLET_PRIVATE_KEY'' \<mapsto> ''0xabc'']"
  have p: "parses_verbatim (URL_new ?P) (SHIELDAPI_URL ?m @ ''/api/'' @ ''full-scan'')"
    by (simp add: parses_verbatim_def example_platform_def parsed_verbatim_def)
  have f: "paymentFetch ?m = recorded ?t"
    by (simp add: module_init_def example_platform_def)
  have b: "SHIELDAPI_URL ?m = ''https://shield.vainplex.dev''"
    by (simp add: module_init_def)
  have d: "\<not> demoMode ?m"
    by (simp add: demoMode_module_init falsy_def)
  from full_scan_sends_classified_target [OF p f]
  have "snd (snd (tool_handler (full_scan_tool ?P ?m) [(''target'', ''user@example.com'')]
                      ((), []))) =
            [] @ [\<lparr>req_url = SHIELDAPI_URL ?m @ ''/api/full-scan?email=user%40example.com''
                       @ (if demoMode ?m then ''&demo=true'' else []),
                     req_payment = None\<rparr>]"
    by blast
  then show ?thesis
    unfolding b using d by simp
qed

lemma property_single: "property [(k, v)] k = v"
  by (simp add: property_def)

lemma ordinary_tool_served:
  assumes "find_tool tools name = Some (ordinary_tool P m name descr key endpoint)"
    and "name \<noteq> ''full_scan''"
  shows "row_served P m tools (name, key, endpoint)"
  using assms
  by (simp add: row_served_def ordinary_tool_def property_single)

lemma table_tool_served:
  assumes "find_tool tools name = Some (table_tool P m (name, d))"
    and "name \<noteq> ''full_scan''"
  shows "row_served P m tools (name, def_param d, def_endpoint d)"
  using assms
  by (simp add: row_served_def table_tool_def)

lemma full_scan_served:
  assumes "find_tool tools ''full_scan'' = Some (full_scan_tool P m)"
  shows "row_served P m tools (''full_scan'', ''target'', ''full-scan'')"
  using assms
  by (simp add: row_served_def full_scan_handler) (simp add: full_scan_tool_def)

lemma registered_tools_names:
  "map (\<lambda>t. (tool_name t, tool_schema t)) (registered_tools P m) =
     map (\<lambda>(name, key, endpoint). (name, [key])) catalog"
  by (simp add: registered_tools_def ordinary_tool_def full_scan_tool_def catalog_def)

lemma registered_tools_from_TOOLS_names:
  "map (\<lambda>t. (tool_name t, tool_schema t)) (registered_tools_from_TOOLS P m) =
     map (\<lambda>(name, key, endpoint). (name, [key])) catalog"
  by (simp add: registered_tools_from_TOOLS_def TOOLS_def table_tool_def full_scan_tool_def
      catalog_def)

lemma registered_tools_serve:
  "\<forall>row \<in> set catalog. row_served P m (registered_tools P m) row"
proof -
  have "row_served P m (registered_tools P m) (''check_url'', ''url'', ''check-url'')"
    by (rule ordinary_tool_served)
       (simp_all add: find_tool_def registered_tools_def ordinary_tool_def)
  moreover
  have "row_served P m (registered_tools P m) (''check_password'', ''hash'', ''check-password'')"
    by (rule ordinary_tool_served)
       (simp_all add: find_tool_def registered_tools_def ordinary_tool_def)
  moreover
  have "row_served P m (registered_tools P m)
      (''check_password_range'', ''prefix'', ''check-password-range'')"
    by (rule ordinary_tool_served)
       (simp_all add: find_tool_def registered_tools_def ordinary_tool_def)
  moreover
  have "row_served P m (registered_tools P m) (''check_domain'', ''domain'', ''check-domain'')"
    by (rule ordinary_tool_served)
       (simp_all add: find_tool_def registered_tools_def ordinary_tool_def)
  moreover
  have "row_served P m (registered_tools P m) (''check_ip'', ''ip'', ''check-ip'')"
    by (rule ordinary_tool_served)
       (simp_all add: find_tool_def registered_tools_def ordinary_tool_def)
  moreover
  have "row_served P m (registered_tools P m) (''check_email'', ''email'', ''check-email'')"
    by (rule ordinary_tool_served)
       (simp_all add: find_tool_def registered_tools_def ordinary_tool_def)
  moreover
  have "row_served P m (registered_tools P m) (''full_scan'', ''target'', ''full-scan'')"
    by (rule full_scan_served) (rule find_full_scan)
  ultimately show ?thesis
    by (simp add: catalog_def)
qed


lemma find_table_tool:
  assumes "distinct (map fst entries)" "(name, d) \<in> set entries"
  shows "find (\<lambda>t. tool_name t = name) (map (table_tool P m) entries @ rest) =
     Some (table_tool P m (name, d))"
  using assms
proof (induction entries)
  case Nil
  then show ?case by simp
next
  case (Cons e entries)
  show ?case
  proof (cases "fst e = name")
    case True
    with Cons.prems have "e = (name, d)"
      by (cases e) (auto simp: image_iff)
    then show ?thesis by (simp add: table_tool_def)
  next
    case False
    with Cons show ?thesis by (auto simp: table_tool_def)
  qed
qed

lemma TOOLS_names: "distinct (map fst TOOLS)" "''full_scan'' \<notin> fst ` set TOOLS"
  by (simp_all add: TOOLS_def)

lemma TOOLS_served:
  assumes "(name, d) \<in> set TOOLS"
  shows "row_served P m (registered_tools_from_TOOLS P m) (name, def_param d, def_endpoint d)"
proof (rule table_tool_served)
  show "find_tool (registered_tools_from_TOOLS P m) name = Some (table_tool P m (name, d))"
    unfolding find_tool_def registered_tools_from_TOOLS_def
    using TOOLS_names(1) assms by (rule find_table_tool)
  from assms TOOLS_names(2) show "name \<noteq> ''full_scan''" by force
qed

lemma catalog_from_TOOLS:
  "catalog = map (\<lambda>(name, d). (name, def_param d, def_endpoint d)) TOOLS
             @ [(''full_scan'', ''target'', ''full-scan'')]"
  by (simp add: catalog_def TOOLS_def)

lemma registered_tools_from_TOOLS_serve:
  "\<forall>row \<in> set catalog. row_served P m (registered_tools_from_TOOLS P m) row"
proof
  fix row
  assume "row \<in> set catalog"
  then consider name d where "(name, d) \<in> set TOOLS" "row = (name, def_param d, def_endpoint d)"
    | "row = (''full_scan'', ''target'', ''full-scan'')"
    unfolding catalog_from_TOOLS by auto
  then show "row_served P m (registered_tools_from_TOOLS P m) row"
  proof cases
    case 1
    then show ?thesis by (simp add: TOOLS_served)
  next
    case 2
    then show ?thesis by (simp add: full_scan_served find_full_scan)
  qed
qed

lemma catalog_keys_plain:
  assumes "(name, key, endpoint) \<in> set catalog"
  shows "key \<noteq> ''demo'' \<and> urlencode key = key"
proof -
  have "urlencode ''url'' = ''url''" "urlencode ''hash'' = ''hash''"
    "urlencode ''prefix'' = ''prefix''" "urlencode ''domain'' = ''domain''"
    "urlencode ''ip'' = ''ip''" "urlencode ''email'' = ''email''"
    "urlencode ''target'' = ''target''"
    by code_simp+
  with assms show ?thesis
    unfolding catalog_def by auto
qed

lemma query_suffix_single:
  "query_suffix ([(key, v)] @ demo_pair demo) =
     ''?'' @ urlencode key @ ''='' @ urlencode v @ (if demo then ''&demo=true'' else [])"
  by (cases demo)
     (simp_all add: query_suffix_def demo_pair_def urlencoded_serialize_def query_component_def
        urlencode_demo urlencode_true)

lemma row_served_request:
  assumes served: "row_served P m tools (name, key, endpoint)"
    and row: "(name, key, endpoint) \<in> set catalog" "name \<noteq> ''full_scan''"
    and t: "find_tool tools name = Some t"
    and parse: "parses_verbatim (URL_new P) (SHIELDAPI_URL m @ ''/api/'' @ endpoint)"
    and rec: "paymentFetch m = recorded tr"
  shows "snd (snd (tool_handler t [(key, v)] (w, log))) =
     log @ [\<lparr>req_url = SHIELDAPI_URL m @ ''/api/'' @ endpoint @ ''?'' @ key @ ''=''
                @ urlencode v @ (if demoMode m then ''&demo=true'' else []),
             req_payment = None\<rparr>]"
proof -
  from row(1) have key: "key \<noteq> ''demo''" "urlencode key = key"
    using catalog_keys_plain by blast+
  from served t row(2) have h: "tool_handler t [(key, v)] (w, log) =
      respond P (callShieldApi P m endpoint [(key, v)] (w, log))"
    by (simp add: row_served_def)
  have "buildUrl (URL_new P) (SHIELDAPI_URL m) endpoint [(key, v)] (demoMode m) =
      Inr (SHIELDAPI_URL m @ ''/api/'' @ endpoint
           @ query_suffix ([(key, v)] @ demo_pair (demoMode m)))"
    using parse key(1)
      buildUrl_fresh [of "URL_new P" "SHIELDAPI_URL m" endpoint
        "SHIELDAPI_URL m @ ''/api/'' @ endpoint" "[(key, v)]" "demoMode m"]
    unfolding parses_verbatim_def by simp
  then have "snd (snd (callShieldApi P m endpoint [(key, v)] (w, log))) =
      log @ [\<lparr>req_url = SHIELDAPI_URL m @ ''/api/'' @ endpoint
                 @ query_suffix ([(key, v)] @ demo_pair (demoMode m)),
               req_payment = None\<rparr>]"
    using rec by (rule callShieldApi_recorded)
  then show ?thesis
    unfolding h snd_respond query_suffix_single key(2) by simp
qed


text \<open>
  C9. The registrations, in either revision, are exactly the seven tools of the catalog, in
  its order, each declaring the single parameter of its row. The handler of every tool calls
  the API at the endpoint of its row; for every tool other than \<^verbatim>\<open>full_scan\<close> the
  parameter set is the declared parameter with its value and nothing else, and over a
  transport that records its calls (and a URL parser that takes the base URL followed by
  \<^verbatim>\<open>/api/\<close> and the endpoint unchanged) the one request sent has the path of the endpoint
  and the query of that single parameter (and \<^verbatim>\<open>demo=true\<close> in Demo mode).
\<close>

theorem registry_matches_catalog:
  "catalog =
     [(''check_url'', ''url'', ''check-url''),
      (''check_password'', ''hash'', ''check-password''),
      (''check_password_range'', ''prefix'', ''check-password-range''),
      (''check_domain'', ''domain'', ''check-domain''),
      (''check_ip'', ''ip'', ''check-ip''),
      (''check_email'', ''email'', ''check-email''),
      (''full_scan'', ''target'', ''full-scan'')]
   \<and> length (registered_tools P m) = 7
   \<and> length (registered_tools_from_TOOLS P m) = 7
   \<and> map (\<lambda>t. (tool_name t, tool_schema t)) (registered_tools P m) =
       map (\<lambda>(name, key, endpoint). (name, [key])) catalog
   \<and> map (\<lambda>t. (tool_name t, tool_schema t)) (registered_tools_from_TOOLS P m) =
       map (\<lambda>(name, key, endpoint). (name, [key])) catalog
   \<and> (\<forall>row \<in> set catalog.
         row_served P m (registered_tools P m) row
       \<and> row_served P m (registered_tools_from_TOOLS P m) row)
   \<and> (\<forall>(name, key, endpoint) \<in> set catalog. \<forall>t tr v w log.
         name \<noteq> ''full_scan''
         \<and> (find_tool (registered_tools P m) name = Some t
            \<or> find_tool (registered_tools_from_TOOLS P m) name = Some t)
         \<and> parses_verbatim (URL_new P) (SHIELDAPI_URL m @ ''/api/'' @ endpoint)
         \<and> paymentFetch m = recorded tr \<longrightarrow>
         snd (snd (tool_handler t [(key, v)] (w, log))) =
           log @ [\<lparr>req_url = SHIELDAPI_URL m @ ''/api/'' @ endpoint @ ''?'' @ key @ ''=''
                      @ urlencode v @ (if demoMode m then ''&demo=true'' else []),
                   req_payment = None\<rparr>])"
proof -
  have table: "catalog =
     [(''check_url'', ''url'', ''check-url''),
      (''check_password'', ''hash'', ''check-password''),
      (''check_password_range'', ''prefix'', ''check-password-range''),
      (''check_domain'', ''domain'', ''check-domain''),
      (''check_ip'', ''ip'', ''check-ip''),
      (''check_email'', ''email'', ''check-email''),
      (''full_scan'', ''target'', ''full-scan'')]"
    by (rule catalog_def)
  have seven: "length (registered_tools P m) = 7" "length (registered_tools_from_TOOLS P m) = 7"
    by (simp_all add: registered_tools_def registered_tools_from_TOOLS_def TOOLS_def)
  have served: "\<forall>row \<in> set catalog.
         row_served P m (registered_tools P m) row
       \<and> row_served P m (registered_tools_from_TOOLS P m) row"
    using registered_tools_serve [of P m] registered_tools_from_TOOLS_serve [of P m] by blast
  have sent: "\<forall>(name, key, endpoint) \<in> set catalog. \<forall>t tr v w log.
         name \<noteq> ''full_scan''
         \<and> (find_tool (registered_tools P m) name = Some t
            \<or> find_tool (registered_tools_from_TOOLS P m) name = Some t)
         \<and> parses_verbatim (URL_new P) (SHIELDAPI_URL m @ ''/api/'' @ endpoint)
         \<and> paymentFetch m = recorded tr \<longrightarrow>
         snd (snd (tool_handler t [(key, v)] (w, log))) =
           log @ [\<lparr>req_url = SHIELDAPI_URL m @ ''/api/'' @ endpoint @ ''?'' @ key @ ''=''
                      @ urlencode v @ (if demoMode m then ''&demo=true'' else []),
                   req_payment = None\<rparr>]"
  proof (intro ballI, clarify)
    fix name key endpoint t tr v w log
    assume row: "(name, key, endpoint) \<in> set catalog" and n: "name \<noteq> ''full_scan''"
      and parse: "parses_verbatim (URL_new P) (SHIELDAPI_URL m @ ''/api/'' @ endpoint)"
      and rec: "paymentFetch m = recorded tr"
      and either: "find_tool (registered_tools P m) name = Some t
            \<or> find_tool (registered_tools_from_TOOLS P m) name = Some t"
    from either show "snd (snd (tool_handler t [(key, v)] (w, log))) =
           log @ [\<lparr>req_url = SHIELDAPI_URL m @ ''/api/'' @ endpoint @ ''?'' @ key @ ''=''
                      @ urlencode v @ (if demoMode m then ''&demo=true'' else []),
                   req_payment = None\<rparr>]"
    proof
      assume t: "find_tool (registered_tools P m) name = Some t"
      from served row have "row_served P m (registered_tools P m) (name, key, endpoint)"
        by blast
      then show ?thesis using row n t parse rec by (rule row_served_request)
    next
      assume t: "find_tool (registered_tools_from_TOOLS P m) name = Some t"
      from served row have "row_served P m (registered_tools_from_TOOLS P m) (name, key, endpoint)"
        by blast
      then show ?thesis using row n t parse rec by (rule row_served_request)
    qed
  qed
  from table seven registered_tools_names [of P m] registered_tools_from_TOOLS_names [of P m]
    served sent
  show ?thesis by (intro conjI)
qed


theorem registry_matches_catalog_witness:
  "\<exists>t. find_tool
        (registered_tools_from_TOOLS
           (example_platform (recorded (constant_transport \<lparr>status = 200, body = ''{}''\<rparr>)))
           (module_init
              (example_platform (recorded (constant_transport \<lparr>status = 200, body = ''{}''\<rparr>)))
              Map.empty))
        ''check_ip'' = Some t
     \<and> tool_schema t = [''ip'']
     \<and> snd (snd (tool_handler t [(''ip'', ''8.8.8.8'')] ((), []))) =
         [\<lparr>req_url = ''https://shield.vainplex.dev/api/check-ip?ip=8.8.8.8&demo=true'',
           req_payment = None\<rparr>]"
proof -
  let ?tr = "constant_transport \<lparr>status = 200, body = ''{}''\<rparr> :: unit transport"
  let ?P = "example_platform (recorded ?tr)"
  let ?m = "module_init ?P Map.empty"
  note c = registry_matches_catalog [of ?P ?m]
  have row: "(''check_ip'', ''ip'', ''check-ip'') \<in> set catalog"
    by (simp add: catalog_def)
  with c have "row_served ?P ?m (registered_tools_from_TOOLS ?P ?m)
      (''check_ip'', ''ip'', ''check-ip'')"
    by blast
  then obtain t where t: "find_tool (registered_tools_from_TOOLS ?P ?m) ''check_ip'' = Some t"
    and schema: "tool_schema t = [''ip'']"
    by (auto simp: row_served_def)
  have p: "parses_verbatim (URL_new ?P) (SHIELDAPI_URL ?m @ ''/api/'' @ ''check-ip'')"
    by (simp add: parses_verbatim_def example_platform_def parsed_verbatim_def)
  have f: "paymentFetch ?m = recorded ?tr"
    by (simp add: module_init_def example_platform_def)
  have b: "SHIELDAPI_URL ?m = ''https://shield.vainplex.dev''"
    by (simp add: module_init_def)
  have d: "demoMode ?m"
    by (simp add: demoMode_module_init falsy_def)
  have e: "urlencode ''8.8.8.8'' = ''8.8.8.8''"
    by code_simp
  have n: "''check_ip'' \<noteq> ''full_scan''" by simp
  from c row have "\<forall>t tr v w log.
         ''check_ip'' \<noteq> ''full_scan''
         \<and> (find_tool (registered_tools ?P ?m) ''check_ip'' = Some t
            \<or> find_tool (registered_tools_from_TOOLS ?P ?m) ''check_ip'' = Some t)
         \<and> parses_verbatim (URL_new ?P) (SHIELDAPI_URL ?m @ ''/api/'' @ ''check-ip'')
         \<and> paymentFetch ?m = recorded tr \<longrightarrow>
         snd (snd (tool_handler t [(''ip'', v)] (w, log))) =
           log @ [\<lparr>req_url = SHIELDAPI_URL ?m @ ''/api/'' @ ''check-ip'' @ ''?'' @ ''ip'' @ ''=''
                      @ urlencode v @ (if demoMode ?m then ''&demo=true'' else []),
                   req_payment = None\<rparr>]"
    by fast
  with n t p f have "snd (snd (tool_handler t [(''ip'', ''8.8.8.8'')] ((), []))) =
           [] @ [\<lparr>req_url = SHIELDAPI_URL ?m @ ''/api/'' @ ''check-ip'' @ ''?'' @ ''ip'' @ ''=''
                      @ urlencode ''8.8.8.8'' @ (if demoMode ?m then ''&demo=true'' else []),
                   req_payment = None\<rparr>]"
    by blast
  then have "snd (snd (tool_handler t [(''ip'', ''8.8.8.8'')] ((), []))) =
         [\<lparr>req_url = ''https://shield.vainplex.dev/api/check-ip?ip=8.8.8.8&demo=true'',
           req_payment = None\<rparr>]"
    unfolding b e using d by simp
  with t schema show ?thesis by blast
qed


section \<open>The result formatter\<close>

text \<open>
  The reply of the formatter has exactly one content block, of type \<^verbatim>\<open>text\<close>, and its
  text is what \<^verbatim>\<open>JSON.stringify(data, null, 2)\<close> gives, unchanged. Whether parsing that
  text gives the value back is a property of the platform's \<^verbatim>\<open>JSON.stringify\<close> and
  \<^verbatim>\<open>JSON.parse\<close> on its numbers, IEEE 754 doubles, and is outside this model.
\<close>

lemma formatResult_single_text_block:
  "content (formatResult P data) =
     [\<lparr>block_type = ''text'', block_text = JSON_stringify P data 2\<rparr>]"
  by (simp add: formatResult_def)

lemma respond_formats:
  "fst r = Inr data \<Longrightarrow> fst (respond P r) = Inr (formatResult P data)"
  by (cases r) (simp add: respond_def)

end
